theory Spec2Isabelle
  imports Main "HOL-Library.Sublist" "HOL-Library.Multiset"
begin

section \<open>Biscuit Flash Utility: a shallow embedding of \<open>biscuit_flash.py\<close>\<close>

text \<open>
  The program talks to the outside world through four channels: the enumeration of serial
  ports, \<open>subprocess\<close> invocations of esptool, the operator's standard input, and the
  firmware server. Each of them is an explicit argument of the functions below. A Python
  exception is a value of type \<open>py_exception\<close>, and a function that can raise returns a sum
  whose \<open>Inl\<close> carries the exception.

  Strings are lists of 8-bit characters; \<open>lower\<close>, \<open>strip\<close> and \<open>isdigit\<close> act on the ASCII
  range, where they agree with Python's \<open>str\<close> methods.
\<close>

subsection \<open>Strings\<close>

definition is_upper :: "char \<Rightarrow> bool" where
  "is_upper c = (65 \<le> (of_char c :: nat) \<and> (of_char c :: nat) \<le> 90)"

definition lower_char :: "char \<Rightarrow> char" where
  "lower_char c = (if is_upper c then char_of (of_char c + (32::nat)) else c)"

text \<open>\<open>s.lower()\<close>\<close>

definition lower :: "string \<Rightarrow> string" where
  "lower s = map lower_char s"

text \<open>\<open>sub in s\<close> on strings: \<open>sub\<close> occurs in \<open>s\<close> as a contiguous block.\<close>

definition str_in :: "string \<Rightarrow> string \<Rightarrow> bool" where
  "str_in sub s = sublist sub s"

text \<open>Python's \<open>str.isspace\<close> on the ASCII range: TAB, LF, VT, FF, CR, FS, GS, RS, US, space.\<close>

definition is_space :: "char \<Rightarrow> bool" where
  "is_space c = ((9 \<le> (of_char c :: nat) \<and> (of_char c :: nat) \<le> 13)
     \<or> (28 \<le> (of_char c :: nat) \<and> (of_char c :: nat) \<le> 32))"

text \<open>\<open>s.rstrip()\<close> and \<open>s.strip()\<close>\<close>

definition rstrip :: "string \<Rightarrow> string" where
  "rstrip s = rev (dropWhile is_space (rev s))"

definition strip :: "string \<Rightarrow> string" where
  "strip s = rstrip (dropWhile is_space s)"

text \<open>\<open>str.isdigit\<close> on the ASCII range.\<close>

definition is_digit :: "char \<Rightarrow> bool" where
  "is_digit c = (48 \<le> (of_char c :: nat) \<and> (of_char c :: nat) \<le> 57)"

text \<open>\<open>sep.join(xs)\<close>\<close>

fun join :: "string \<Rightarrow> string list \<Rightarrow> string" where
  "join sep [] = []"
| "join sep [x] = x"
| "join sep (x # y # ys) = x @ sep @ join sep (y # ys)"

text \<open>\<open>str(n)\<close> for an integer: decimal digits, with a minus sign when negative.\<close>

fun str_nat :: "nat \<Rightarrow> string" where
  "str_nat n = (if n < 10 then [char_of (48 + n)]
                else str_nat (n div 10) @ [char_of (48 + n mod 10)])"

definition str_int :: "int \<Rightarrow> string" where
  "str_int i = (if i < 0 then CHR ''-'' # str_nat (nat (- i)) else str_nat (nat i))"

subsection \<open>Exceptions and subprocess results\<close>

text \<open>
  The exception classes the program distinguishes. \<open>KeyboardInterrupt\<close> derives from
  \<open>BaseException\<close> only, so \<open>except Exception\<close> does not catch it; every other class here
  derives from \<open>Exception\<close>. The string is \<open>str(e)\<close>.
\<close>

datatype exc_class = ImportError | TimeoutExpired | URLError | ValueError
  | KeyboardInterrupt | EOFError | OtherError

datatype py_exception = PyExc exc_class string

fun exc_class_of :: "py_exception \<Rightarrow> exc_class" where
  "exc_class_of (PyExc k m) = k"

fun str_exc :: "py_exception \<Rightarrow> string" where
  "str_exc (PyExc k m) = m"

definition is_Exception :: "py_exception \<Rightarrow> bool" where
  "is_Exception e = (exc_class_of e \<noteq> KeyboardInterrupt)"

text \<open>
  What \<open>subprocess.run(cmd, capture_output=True, text=True, timeout=...)\<close> gives: a
  completed process with its return code, stdout and stderr, or an exception.
\<close>

datatype run_result = Completed int string string | RunRaised py_exception

definition sys_executable :: string where
  "sys_executable = ''python''"

subsection \<open>Device types and their flash settings\<close>

datatype device_type = C5 | Wroom

record flash_config =
  chip :: string
  baud :: string
  flash_freq :: string
  name :: string

fun FLASH_CONFIG :: "device_type \<Rightarrow> flash_config" where
  "FLASH_CONFIG C5 = \<lparr>chip = ''esp32c5'', baud = ''460800'', flash_freq = ''80m'',
     name = ''C5 Scanner''\<rparr>"
| "FLASH_CONFIG Wroom = \<lparr>chip = ''esp32'', baud = ''921600'', flash_freq = ''40m'',
     name = ''WROOM BLE Gateway''\<rparr>"

subsection \<open>\<open>detect_chip_type\<close>\<close>

text \<open>
  The parse of the tool's output (lines 169-179): \<open>Some C5\<close> is the return value \<open>"c5"\<close>,
  \<open>Some Wroom\<close> is \<open>"wroom"\<close>, \<open>None\<close> is \<open>None\<close>.
\<close>

definition parse_chip_type :: "string \<Rightarrow> device_type option" where
  "parse_chip_type output =
     (let output_lower = lower output in
      if str_in ''esp32-c5'' output_lower \<or> str_in ''esp32c5'' output_lower then Some C5
      else if str_in ''esp32-c'' output_lower \<or> str_in ''esp32c'' output_lower then None
      else if str_in ''esp32-d'' output_lower \<or> str_in ''esp32'' output_lower then Some Wroom
      else None)"

text \<open>
  \<open>run\<close> is what \<open>subprocess.run\<close> returns for a command line at the time of the call.
  \<open>TimeoutExpired\<close> and every other \<open>Exception\<close> give \<open>None\<close>; a \<open>KeyboardInterrupt\<close>
  passes through both handlers.
\<close>

definition detect_chip_type :: "(string list \<Rightarrow> run_result) \<Rightarrow> string \<Rightarrow> py_exception + device_type option" where
  "detect_chip_type run port =
     (case run [sys_executable, ''-m'', ''esptool'', ''--chip'', ''auto'', ''--port'', port, ''chip_id''] of
        Completed returncode out err \<Rightarrow> Inr (parse_chip_type (out @ err))
      | RunRaised e \<Rightarrow>
          if exc_class_of e = TimeoutExpired then Inr None
          else if is_Exception e then Inr None
          else Inl e)"

subsection \<open>\<open>list_com_ports\<close> and \<open>port_exists\<close>\<close>

text \<open>A port as the enumeration reports it (\<open>p.device\<close>, \<open>p.description\<close>).\<close>

record port_info =
  device :: string
  description :: string

text \<open>
  The PowerShell fallback prints the JSON of \<open>Select-Object DeviceID, Description\<close>. An
  object holds the two properties, each a string when present (\<open>None\<close>: the key is missing,
  or the value is \<open>null\<close> for the description). \<open>json.loads\<close> gives one object, an array,
  or some other JSON value; an array element is an object or something without \<open>.get\<close>.
\<close>

record ps_object =
  DeviceID :: "string option"
  Description :: "string option"

datatype ps_item = ItemObject ps_object | ItemOther

datatype ps_json = JsonObject ps_object | JsonArray "ps_item list" | JsonOther

text \<open>
  What the platform answers when ports are enumerated:
  \<^item> \<open>pyserial\<close>: the outcome of \<open>import serial.tools.list_ports\<close> followed by
    \<open>list(comports())\<close>, the exception when either raises;
  \<^item> \<open>powershell\<close>: the outcome of the \<open>Get-CimInstance\<close> command;
  \<^item> \<open>json_loads\<close>: \<open>json.loads\<close>, \<open>None\<close> when it raises \<open>JSONDecodeError\<close>.
\<close>

record platform =
  pyserial :: "py_exception + port_info list"
  powershell :: run_result
  json_loads :: "string \<Rightarrow> ps_json option"

definition PortInfo :: "ps_object \<Rightarrow> port_info" where
  "PortInfo p = \<lparr>device = (case DeviceID p of Some d \<Rightarrow> d | None \<Rightarrow> []),
                 description = (case Description p of Some d \<Rightarrow> d | None \<Rightarrow> [])\<rparr>"

fun item_objects :: "ps_item list \<Rightarrow> ps_object list option" where
  "item_objects [] = Some []"
| "item_objects (ItemObject p # items) = map_option ((#) p) (item_objects items)"
| "item_objects (ItemOther # items) = None"

text \<open>
  The fallback (lines 131-150). Everything inside its \<open>try\<close> that raises an \<open>Exception\<close>
  ends in \<open>return []\<close>: a failed PowerShell run, a JSON error, a value that is not iterable,
  an element without \<open>.get\<close>.
\<close>

definition powershell_ports :: "platform \<Rightarrow> py_exception + port_info list" where
  "powershell_ports plat =
     (case powershell plat of
        RunRaised e \<Rightarrow> if is_Exception e then Inr [] else Inl e
      | Completed returncode out err \<Rightarrow>
          if returncode = 0 \<and> strip out \<noteq> [] then
            (case json_loads plat out of
               None \<Rightarrow> Inr []
             | Some (JsonObject p) \<Rightarrow> Inr [PortInfo p]
             | Some (JsonArray items) \<Rightarrow>
                 (case item_objects items of
                    Some ps \<Rightarrow> Inr (map PortInfo ps)
                  | None \<Rightarrow> Inr [])
             | Some JsonOther \<Rightarrow> Inr [])
          else Inr [])"

text \<open>
  Lines 124-150. Only \<open>ImportError\<close> is caught on the pyserial path: any other exception
  of the import or of \<open>comports()\<close> leaves the function.
\<close>

definition list_com_ports :: "platform \<Rightarrow> py_exception + port_info list" where
  "list_com_ports plat =
     (case pyserial plat of
        Inr ports \<Rightarrow> Inr ports
      | Inl e \<Rightarrow> if exc_class_of e = ImportError then powershell_ports plat else Inl e)"

definition port_exists :: "platform \<Rightarrow> string \<Rightarrow> py_exception + bool" where
  "port_exists plat port =
     (case list_com_ports plat of
        Inl e \<Rightarrow> Inl e
      | Inr ports \<Rightarrow> Inr (list_ex (\<lambda>p. device p = port) ports))"

subsection \<open>\<open>scan_for_devices\<close>\<close>

text \<open>
  The dictionary \<open>{"c5": ..., "wroom": ...}\<close> has exactly the two device types as keys, so
  it is a function on \<open>device_type\<close>; \<open>None\<close> is Python's \<open>None\<close>. A value is true in a
  condition when it is a non-empty string.
\<close>

type_synonym devices = "device_type \<Rightarrow> string option"

definition truthy :: "string option \<Rightarrow> bool" where
  "truthy v = (case v of None \<Rightarrow> False | Some s \<Rightarrow> s \<noteq> [])"

text \<open>
  \<open>int(s)\<close> for a string of ASCII digits: the number they write in base ten; \<open>None\<close> is
  the \<open>ValueError\<close> raised on the empty string.
\<close>

definition decimal :: "string \<Rightarrow> nat" where
  "decimal ds = foldl (\<lambda>acc c. 10 * acc + (of_char c - 48)) 0 ds"

definition int_of_digits :: "string \<Rightarrow> nat option" where
  "int_of_digits ds = (if ds = [] then None else Some (decimal ds))"

definition get_port_num :: "port_info \<Rightarrow> nat" where
  "get_port_num p =
     (case int_of_digits (filter is_digit (device p)) of
        Some n \<Rightarrow> n
      | None \<Rightarrow> 0)"

text \<open>
  \<open>sorted(xs, key=key, reverse=True)\<close>: a stable sort of the reversed list, reversed again,
  which is how \<open>list.sort\<close> keeps equal keys in their original order.
\<close>

definition sorted_reverse :: "('a \<Rightarrow> nat) \<Rightarrow> 'a list \<Rightarrow> 'a list" where
  "sorted_reverse key xs = rev (sort_key key (rev xs))"

text \<open>
  The loop of lines 202-224 over the sorted ports. \<open>run i\<close> answers the probe of the port at
  index \<open>i\<close>. The second component of the result lists, per probed port, what the loop
  prints for it: the port and the chip type detected. The pause between probes has no
  effect on the result and is left out.
\<close>

fun scan_loop :: "(nat \<Rightarrow> string list \<Rightarrow> run_result) \<Rightarrow> nat \<Rightarrow> port_info list \<Rightarrow> devices
    \<Rightarrow> py_exception + devices \<times> (string \<times> device_type option) list" where
  "scan_loop run i [] devs = Inr (devs, [])"
| "scan_loop run i (port_info # ports) devs =
     (let port = device port_info in
      case detect_chip_type (run i) port of
        Inl e \<Rightarrow> Inl e
      | Inr chip_type \<Rightarrow>
          (let devs' = (case chip_type of
                          Some C5 \<Rightarrow> devs(C5 := Some port)
                        | Some Wroom \<Rightarrow> devs(Wroom := Some port)
                        | None \<Rightarrow> devs)
           in if truthy (devs' C5) \<and> truthy (devs' Wroom) then Inr (devs', [(port, chip_type)])
              else (case scan_loop run (Suc i) ports devs' of
                      Inl e \<Rightarrow> Inl e
                    | Inr (d, checked) \<Rightarrow> Inr (d, (port, chip_type) # checked))))"

definition scan_for_devices :: "platform \<Rightarrow> (nat \<Rightarrow> string list \<Rightarrow> run_result)
    \<Rightarrow> py_exception + devices \<times> (string \<times> device_type option) list" where
  "scan_for_devices plat run =
     (case list_com_ports plat of
        Inl e \<Rightarrow> Inl e
      | Inr ports \<Rightarrow>
          if ports = [] then Inr (\<lambda>k. None, [])
          else scan_loop run 0 (sorted_reverse get_port_num ports) (\<lambda>k. None))"


subsection \<open>\<open>flash_device\<close>\<close>

text \<open>
  What \<open>subprocess.Popen\<close>, the loop over \<open>process.stdout\<close> and \<open>process.wait\<close> give
  together: the exit code with the lines read, or the exception one of them raised.
\<close>

datatype popen_result = Exited int "string list" | PopenRaised py_exception

text \<open>Lines 246-256: \<open>None\<close> when the erase went through and the function goes on.\<close>

definition run_erase :: "run_result \<Rightarrow> (py_exception + bool \<times> string option) option" where
  "run_erase r =
     (case r of
        Completed returncode out err \<Rightarrow>
          if returncode \<noteq> 0 then Some (Inr (False, Some ''Erase failed'')) else None
      | RunRaised e \<Rightarrow>
          if exc_class_of e = TimeoutExpired then Some (Inr (False, Some ''Erase timed out''))
          else Some (Inl e))"

text \<open>Lines 267-305.\<close>

definition run_write :: "popen_result \<Rightarrow> py_exception + bool \<times> string option" where
  "run_write r =
     (case r of
        Exited returncode lines \<Rightarrow>
          if returncode = 0 then Inr (True, None)
          else
            (let output = join [CHR 0x0A] (map rstrip lines) in
             if str_in ''Failed to connect'' output then
               Inr (False, Some ''Failed to connect (device not in download mode?)'')
             else if str_in ''Timed out'' output then
               Inr (False, Some ''Connection timed out'')
             else if str_in ''Permission'' (lower output) then
               Inr (False, Some ''Permission denied (port in use by another program?)'')
             else Inr (False, Some (''Flash failed (exit code '' @ str_int returncode @ '')'')))
      | PopenRaised e \<Rightarrow>
          if exc_class_of e = TimeoutExpired then Inr (False, Some ''Flash operation timed out'')
          else if is_Exception e then Inr (False, Some (str_exc e))
          else Inl e)"

definition esptool_cmd :: "flash_config \<Rightarrow> string \<Rightarrow> string list" where
  "esptool_cmd config port =
     [sys_executable, ''-m'', ''esptool'', ''--chip'', chip config, ''--port'', port,
      ''--baud'', baud config, ''--before'', ''default_reset'', ''--after'', ''hard_reset'']"

text \<open>
  \<open>flash_device(device_type, port, firmware_path, erase_first)\<close>. \<open>run\<close> and \<open>popen\<close> answer
  the erase and the write command. The result is the returned pair \<open>(success,
  error_message)\<close> or the exception that leaves the function, together with the esptool
  command lines that were started, in order.
\<close>

definition flash_device :: "platform \<Rightarrow> (string list \<Rightarrow> run_result) \<Rightarrow> (string list \<Rightarrow> popen_result)
    \<Rightarrow> device_type \<Rightarrow> string \<Rightarrow> string \<Rightarrow> bool
    \<Rightarrow> (py_exception + bool \<times> string option) \<times> string list list" where
  "flash_device plat run popen device_type port firmware_path erase_first =
     (let config = FLASH_CONFIG device_type in
      case port_exists plat port of
        Inl e \<Rightarrow> (Inl e, [])
      | Inr exists \<Rightarrow>
          if \<not> exists then (Inr (False, Some ''Device disconnected''), [])
          else
            (let cmd = esptool_cmd config port;
                 erase_cmd = cmd @ [''erase_flash''];
                 flash_cmd = cmd @ [''write_flash'', ''--flash_mode'', ''dio'',
                   ''--flash_freq'', flash_freq config, ''--flash_size'', ''detect'',
                   ''0x0'', firmware_path]
             in if erase_first then
                  (case run_erase (run erase_cmd) of
                     Some r \<Rightarrow> (r, [erase_cmd])
                   | None \<Rightarrow> (run_write (popen flash_cmd), [erase_cmd, flash_cmd]))
                else (run_write (popen flash_cmd), [flash_cmd])))"

subsection \<open>Operator prompts\<close>

text \<open>
  Standard input as the list of what successive \<open>input()\<close> calls meet: a line (without its
  newline) or a \<open>KeyboardInterrupt\<close>. At the end of the list \<open>input()\<close> raises \<open>EOFError\<close>.
\<close>

datatype stdin_event = Line string | Interrupt

datatype action = Retry | Erase | Skip | Rescan | Quit

text \<open>Lines 317-334. The printed menu has no effect on the result.\<close>

fun prompt_retry :: "stdin_event list \<Rightarrow> action \<times> stdin_event list" where
  "prompt_retry [] = (Quit, [])"
| "prompt_retry (Interrupt # rest) = (Quit, rest)"
| "prompt_retry (Line s # rest) =
     (let choice = lower (strip s) in
      if choice = [] \<or> choice = ''r'' \<and> length choice = 0 then (Retry, rest)
      else if choice = ''e'' then (Erase, rest)
      else if choice = ''s'' then (Skip, rest)
      else if choice = ''r'' then (Rescan, rest)
      else if choice = ''q'' then (Quit, rest)
      else prompt_retry rest)"

text \<open>Lines 343-354.\<close>

fun prompt_no_devices :: "stdin_event list \<Rightarrow> action \<times> stdin_event list" where
  "prompt_no_devices [] = (Quit, [])"
| "prompt_no_devices (Interrupt # rest) = (Quit, rest)"
| "prompt_no_devices (Line s # rest) =
     (let choice = lower (strip s) in
      if choice = [] \<or> choice = ''r'' then (Rescan, rest)
      else if choice = ''q'' then (Quit, rest)
      else prompt_no_devices rest)"

text \<open>Lines 363-372.\<close>

fun prompt_disconnect :: "stdin_event list \<Rightarrow> action \<times> stdin_event list" where
  "prompt_disconnect [] = (Quit, [])"
| "prompt_disconnect (Interrupt # rest) = (Quit, rest)"
| "prompt_disconnect (Line s # rest) =
     (let choice = lower (strip s) in
      if choice = [] \<or> choice = ''r'' then (Rescan, rest)
      else if choice = ''q'' then (Quit, rest)
      else prompt_disconnect rest)"

subsection \<open>\<open>main\<close>\<close>

text \<open>
  The state of the world at one call into it: the answer of the port enumeration and of
  the esptool invocations made during that call (\<open>tool_run i\<close> answers the \<open>i\<close>-th
  \<open>subprocess.run\<close> of the call, \<open>tool_popen\<close> the \<open>subprocess.Popen\<close>).
\<close>

record world =
  ports_now :: platform
  tool_run :: "nat \<Rightarrow> string list \<Rightarrow> run_result"
  tool_popen :: "string list \<Rightarrow> popen_result"

text \<open>
  What happens during a session, in the order of the source: each call of
  \<open>scan_for_devices\<close>, \<open>flash_device\<close> (with its device type, port and \<open>erase_first\<close>) and
  \<open>port_exists\<close>, each answer of a prompt, each assignment to \<open>flash_results\<close>, the
  operator's answer to the "connect it and press Enter, or Q to finish" question (\<open>None\<close>
  when \<open>input()\<close> raised), and the printing of the summary.
\<close>

datatype event =
    EvScan
  | EvFlash device_type string bool
  | EvPortExists string
  | EvNoDevices action
  | EvDisconnect device_type action
  | EvRetry device_type action
  | EvOutcome device_type bool
  | EvContinue "string option"
  | EvSummary

text \<open>
  The variables of \<open>main\<close> that outlive a loop iteration, with what is left of standard
  input, the number of calls made into the world so far, and the events so far, in the
  order in which they happened. \<open>flash_results\<close> is the dictionary of line 435: \<open>None\<close> pending, \<open>Some True\<close>
  success, \<open>Some False\<close> skipped.
\<close>

record session =
  flash_results :: "device_type \<Rightarrow> bool option"
  stdin :: "stdin_event list"
  clock :: nat
  trace :: "event list"

definition emit :: "event \<Rightarrow> session \<Rightarrow> session" where
  "emit e st = st\<lparr>trace := trace st @ [e]\<rparr>"

definition tick :: "session \<Rightarrow> session" where
  "tick st = st\<lparr>clock := Suc (clock st)\<rparr>"

definition set_result :: "device_type \<Rightarrow> bool \<Rightarrow> session \<Rightarrow> session" where
  "set_result t b st = emit (EvOutcome t b) (st\<lparr>flash_results := (flash_results st)(t := Some b)\<rparr>)"

text \<open>
  How an inner \<open>while True\<close> loop is left (\<open>break\<close>, \<open>return\<close>, an exception, or the
  iteration bound of the model), and how one pass through its body ends: the loop is left,
  or \<open>continue\<close> starts the next pass with a new value of \<open>erase_flash\<close>.
\<close>

datatype loop_exit = Break | Return int | Raise py_exception | Fuel

datatype loop_step = Leave loop_exit | Continue bool

text \<open>
  The body of the inner loop, lines 471-506 (C5) and 517-552 (WROOM); the two texts differ
  in the device type only.
\<close>

definition flash_attempt :: "(nat \<Rightarrow> world) \<Rightarrow> device_type \<Rightarrow> string \<Rightarrow> string \<Rightarrow> bool \<Rightarrow> session
    \<Rightarrow> loop_step \<times> session" where
  "flash_attempt w t port firmware erase_flash st =
     (let now = w (clock st);
          st1 = tick (emit (EvFlash t port erase_flash) st)
      in case fst (flash_device (ports_now now) (tool_run now 0) (tool_popen now)
                     t port firmware erase_flash) of
           Inl e \<Rightarrow> (Leave (Raise e), st1)
         | Inr (success, error) \<Rightarrow>
             if success then (Leave Break, set_result t True st1)
             else
               (let now2 = w (clock st1);
                    st2 = tick (emit (EvPortExists port) st1)
                in case port_exists (ports_now now2) port of
                     Inl e \<Rightarrow> (Leave (Raise e), st2)
                   | Inr exists \<Rightarrow>
                       if \<not> exists then
                         (case prompt_disconnect (stdin st2) of
                            (action, rest) \<Rightarrow>
                              (let st3 = emit (EvDisconnect t action) (st2\<lparr>stdin := rest\<rparr>)
                               in if action = Quit then (Leave (Return 1), st3)
                                  else (Leave Break, st3)))
                       else
                         (case prompt_retry (stdin st2) of
                            (action, rest) \<Rightarrow>
                              (let st3 = emit (EvRetry t action) (st2\<lparr>stdin := rest\<rparr>)
                               in case action of
                                    Retry \<Rightarrow> (Continue False, st3)
                                  | Erase \<Rightarrow> (Continue True, st3)
                                  | Skip \<Rightarrow> (Leave Break, set_result t False st3)
                                  | Rescan \<Rightarrow> (Leave Break, st3)
                                  | Quit \<Rightarrow> (Leave (Return 1), st3)))))"

text \<open>The inner \<open>while True\<close>. The first argument bounds the number of passes.\<close>

fun flash_loop :: "nat \<Rightarrow> (nat \<Rightarrow> world) \<Rightarrow> device_type \<Rightarrow> string \<Rightarrow> string \<Rightarrow> bool \<Rightarrow> session
    \<Rightarrow> loop_exit \<times> session" where
  "flash_loop 0 w t port firmware erase_flash st = (Fuel, st)"
| "flash_loop (Suc n) w t port firmware erase_flash st =
     (case flash_attempt w t port firmware erase_flash st of
        (Leave ex, st') \<Rightarrow> (ex, st')
      | (Continue erase_flash', st') \<Rightarrow> flash_loop n w t port firmware erase_flash' st')"

text \<open>
  Lines 464-468 and 511-514: the guard of a device's block, and the start of its attempt
  sequence with \<open>erase_flash = False\<close>.
\<close>

definition flash_block :: "nat \<Rightarrow> (nat \<Rightarrow> world) \<Rightarrow> device_type \<Rightarrow> devices \<Rightarrow> string \<Rightarrow> session
    \<Rightarrow> loop_exit \<times> session" where
  "flash_block n w t devs firmware st =
     (case devs t of
        Some port \<Rightarrow>
          if port \<noteq> [] \<and> flash_results st t = None
          then flash_loop n w t port firmware False st
          else (Break, st)
      | None \<Rightarrow> (Break, st))"

datatype status = Returned int | Raised py_exception | OutOfFuel

text \<open>How one pass through the body of the outer loop ends.\<close>

datatype main_step = Stop status | Next

text \<open>Lines 578-608.\<close>

definition summary :: "session \<Rightarrow> status \<times> session" where
  "summary st =
     (let c5_status = flash_results st C5;
          wroom_status = flash_results st Wroom
      in (Returned (if c5_status = Some True \<or> wroom_status = Some True then 0 else 1),
          emit EvSummary st))"

text \<open>
  Lines 556-576, the end of the outer loop's body; a \<open>break\<close> there leads to the summary
  and the return of \<open>main\<close>.
\<close>

definition check_done :: "session \<Rightarrow> main_step \<times> session" where
  "check_done st =
     (let handled = filter (\<lambda>k. flash_results st k \<noteq> None) [C5, Wroom];
          pending = filter (\<lambda>k. flash_results st k = None) [C5, Wroom]
      in if pending = [] then (case summary st of (s, st') \<Rightarrow> (Stop s, st'))
         else if handled \<noteq> [] then
           (case stdin st of
              [] \<Rightarrow> (case summary (emit (EvContinue None) st) of (s, st') \<Rightarrow> (Stop s, st'))
            | Interrupt # rest \<Rightarrow>
                (case summary (emit (EvContinue None) (st\<lparr>stdin := rest\<rparr>)) of
                   (s, st') \<Rightarrow> (Stop s, st'))
            | Line s # rest \<Rightarrow>
                (let choice = lower (strip s);
                     st1 = emit (EvContinue (Some choice)) (st\<lparr>stdin := rest\<rparr>)
                 in if choice = ''q'' then (case summary st1 of (s, st') \<Rightarrow> (Stop s, st'))
                    else (Next, st1)))
         else (Next, st))"

text \<open>
  The body of the outer loop, lines 438-576. The first argument bounds the passes of the
  inner loops.
\<close>

definition main_iteration :: "nat \<Rightarrow> (nat \<Rightarrow> world) \<Rightarrow> string \<Rightarrow> string \<Rightarrow> session
    \<Rightarrow> main_step \<times> session" where
  "main_iteration n w c5_firmware wroom_firmware st =
     (let now = w (clock st);
          st1 = tick (emit EvScan st)
      in case scan_for_devices (ports_now now) (tool_run now) of
           Inl e \<Rightarrow> (Stop (Raised e), st1)
         | Inr (devs, checked) \<Rightarrow>
             if \<not> (truthy (devs C5) \<or> truthy (devs Wroom)) then
               (case prompt_no_devices (stdin st1) of
                  (action, rest) \<Rightarrow>
                    (let st2 = emit (EvNoDevices action) (st1\<lparr>stdin := rest\<rparr>)
                     in if action = Quit then (Stop (Returned 1), st2) else (Next, st2)))
             else
               (case flash_block n w C5 devs c5_firmware st1 of
                  (Return c, st2) \<Rightarrow> (Stop (Returned c), st2)
                | (Raise e, st2) \<Rightarrow> (Stop (Raised e), st2)
                | (Fuel, st2) \<Rightarrow> (Stop OutOfFuel, st2)
                | (Break, st2) \<Rightarrow>
                    (case flash_block n w Wroom devs wroom_firmware st2 of
                       (Return c, st3) \<Rightarrow> (Stop (Returned c), st3)
                     | (Raise e, st3) \<Rightarrow> (Stop (Raised e), st3)
                     | (Fuel, st3) \<Rightarrow> (Stop OutOfFuel, st3)
                     | (Break, st3) \<Rightarrow> check_done st3)))"

text \<open>The outer \<open>while True\<close>. The first argument bounds the number of passes.\<close>

fun main_loop :: "nat \<Rightarrow> (nat \<Rightarrow> world) \<Rightarrow> string \<Rightarrow> string \<Rightarrow> session \<Rightarrow> status \<times> session" where
  "main_loop 0 w c5_firmware wroom_firmware st = (OutOfFuel, st)"
| "main_loop (Suc n) w c5_firmware wroom_firmware st =
     (case main_iteration n w c5_firmware wroom_firmware st of
        (Stop s, st') \<Rightarrow> (s, st')
      | (Next, st') \<Rightarrow> main_loop n w c5_firmware wroom_firmware st')"

text \<open>
  The steps of \<open>main\<close> before the loop (lines 387-432) use \<open>check_esptool\<close>,
  \<open>download_manifest\<close> and \<open>download_firmware\<close>, taken here by their results: whether
  esptool is there, the manifest's two \<open>mergedFilename\<close> entries or the exception, and the
  cached path of a firmware file (\<open>None\<close> when the download failed). The manifest is taken
  to hold an entry for each device type; a \<open>mergedFilename\<close> that is missing, \<open>null\<close> or
  empty fails the test of lines 417 and 420. The \<open>--fresh\<close> flag decides only whether a
  cached file is used again, which is part of what \<open>download_firmware\<close> answers. Every
  return before the loop has code 1.
\<close>

record manifest =
  c5_merged :: "string option"
  wroom_merged :: "string option"

record bootstrap =
  check_esptool :: "py_exception + bool"
  download_manifest :: "py_exception + manifest"
  download_firmware :: "string \<Rightarrow> string option"

definition session0 :: "stdin_event list \<Rightarrow> session" where
  "session0 inp = \<lparr>flash_results = (\<lambda>k. None), stdin = inp, clock = 0, trace = []\<rparr>"

definition main :: "nat \<Rightarrow> bootstrap \<Rightarrow> (nat \<Rightarrow> world) \<Rightarrow> stdin_event list \<Rightarrow> status \<times> session" where
  "main n boot w inp =
     (let st = session0 inp in
      case check_esptool boot of
        Inl e \<Rightarrow> (Raised e, st)
      | Inr ok \<Rightarrow>
          if \<not> ok then (Returned 1, st)
          else
            (case download_manifest boot of
               Inl e \<Rightarrow> if exc_class_of e = URLError then (Returned 1, st) else (Raised e, st)
             | Inr m \<Rightarrow>
                 (case c5_merged m of
                    None \<Rightarrow> (Returned 1, st)
                  | Some c5_file \<Rightarrow>
                      if c5_file = [] then (Returned 1, st)
                      else
                        (case wroom_merged m of
                           None \<Rightarrow> (Returned 1, st)
                         | Some wroom_file \<Rightarrow>
                             if wroom_file = [] then (Returned 1, st)
                             else
                               (case download_firmware boot c5_file of
                                  None \<Rightarrow> (Returned 1, st)
                                | Some c5_firmware \<Rightarrow>
                                    (case download_firmware boot wroom_file of
                                       None \<Rightarrow> (Returned 1, st)
                                     | Some wroom_firmware \<Rightarrow>
                                         main_loop n w c5_firmware wroom_firmware st))))))"

text \<open>
  \<open>sys.exit(main())\<close> (lines 611-616): the returned code; 1 after a \<open>KeyboardInterrupt\<close>
  (the handler of line 614) and after any other exception that leaves \<open>main\<close> (the
  interpreter's exit status for an uncaught exception). \<open>None\<close>: still running.
\<close>

fun exit_code :: "status \<Rightarrow> int option" where
  "exit_code (Returned c) = Some c"
| "exit_code (Raised e) = Some 1"
| "exit_code OutOfFuel = None"

text \<open>The operator's "quit" at one of the three prompts.\<close>

fun is_quit :: "event \<Rightarrow> bool" where
  "is_quit (EvNoDevices a) = (a = Quit)"
| "is_quit (EvDisconnect t a) = (a = Quit)"
| "is_quit (EvRetry t a) = (a = Quit)"
| "is_quit e = False"

subsection \<open>What the events of a session may look like\<close>

text \<open>
  Predicates on the events of a session, for the invariants of the two loops.
  \<open>concerns t e\<close>: the event is a \<open>flash_device\<close> call or an assignment to \<open>flash_results\<close>
  for the device type \<open>t\<close>.
\<close>

fun concerns :: "device_type \<Rightarrow> event \<Rightarrow> bool" where
  "concerns t (EvFlash t' port er) = (t' = t)"
| "concerns t (EvOutcome t' b) = (t' = t)"
| "concerns t e = False"

text \<open>
  After an assignment to \<open>flash_results[t]\<close> nothing concerns \<open>t\<close> any more, and the
  dictionary still holds the value assigned.
\<close>

definition settled :: "(device_type \<Rightarrow> bool option) \<Rightarrow> event list \<Rightarrow> bool" where
  "settled res tr = (\<forall>t before b after. tr = before @ EvOutcome t b # after \<longrightarrow>
     (\<forall>e\<in>set after. \<not> concerns t e) \<and> res t = Some b)"

text \<open>
  A \<open>flash_device\<close> call has \<open>erase_first\<close> set exactly when the event just before it is the
  operator's "erase" for the same device type.
\<close>

definition erase_ok :: "event list \<Rightarrow> bool" where
  "erase_ok tr = (\<forall>before t port er after. tr = before @ EvFlash t port er # after \<longrightarrow>
     er = (before \<noteq> [] \<and> last before = EvRetry t Erase))"

text \<open>No quit and no summary so far; a quit as the last event; the summary as the last event.\<close>

definition undecided :: "event list \<Rightarrow> bool" where
  "undecided tr = (\<forall>e\<in>set tr. \<not> is_quit e \<and> e \<noteq> EvSummary)"

definition ended_by_quit :: "event list \<Rightarrow> bool" where
  "ended_by_quit tr = (tr \<noteq> [] \<and> is_quit (last tr) \<and> undecided (butlast tr))"

definition ended_by_summary :: "event list \<Rightarrow> bool" where
  "ended_by_summary tr = (tr \<noteq> [] \<and> last tr = EvSummary \<and> undecided (butlast tr))"

text \<open>
  How \<open>main\<close> can end: code 1 before the loop or after a quit, the summary with code 0
  exactly when a device was flashed, or no return (an exception, or still running).
\<close>

definition closing :: "status \<Rightarrow> session \<Rightarrow> bool" where
  "closing s st =
     (case s of
        Returned c \<Rightarrow>
          c = 1 \<and> undecided (trace st)
          \<or> c = 1 \<and> ended_by_quit (trace st)
          \<or> (c = 0 \<longleftrightarrow> flash_results st C5 = Some True \<or> flash_results st Wroom = Some True)
            \<and> (c = 0 \<or> c = 1) \<and> ended_by_summary (trace st)
      | Raised e \<Rightarrow> undecided (trace st)
      | OutOfFuel \<Rightarrow> undecided (trace st))"

subsection \<open>Example inputs\<close>

text \<open>A workstation where pyserial lists one port, COM3.\<close>

definition one_port :: platform where
  "one_port = \<lparr>pyserial = Inr [\<lparr>device = ''COM3'', description = ''USB Serial''\<rparr>],
     powershell = Completed 1 [] [], json_loads = (\<lambda>s. None)\<rparr>"

text \<open>A workstation where pyserial is installed and \<open>comports()\<close> raises an \<open>OSError\<close>.\<close>

definition comports_fails :: platform where
  "comports_fails = \<lparr>pyserial = Inl (PyExc OtherError ''[WinError 5] Access is denied.''),
     powershell = Completed 0 [] [], json_loads = (\<lambda>s. None)\<rparr>"

text \<open>A workstation without pyserial and without PowerShell.\<close>

definition no_pyserial :: platform where
  "no_pyserial = \<lparr>pyserial = Inl (PyExc ImportError ''No module named serial''),
     powershell = RunRaised (PyExc OtherError ''[WinError 2] The system cannot find the file specified''),
     json_loads = (\<lambda>s. None)\<rparr>"

text \<open>
  Two scanner modules on COM5 and COM4 and a gateway module on COM3; esptool names the
  chip of the port it is asked about.
\<close>

definition three_ports :: platform where
  "three_ports = \<lparr>pyserial = Inr [\<lparr>device = ''COM3'', description = ''USB Serial''\<rparr>,
       \<lparr>device = ''COM5'', description = ''USB JTAG''\<rparr>,
       \<lparr>device = ''COM4'', description = ''USB JTAG''\<rparr>],
     powershell = Completed 1 [] [], json_loads = (\<lambda>s. None)\<rparr>"

definition chip_id_answers :: "nat \<Rightarrow> string list \<Rightarrow> run_result" where
  "chip_id_answers i cmd =
     (if List.member cmd ''COM3'' then Completed 0 ''Chip is ESP32-D0WD-V3'' []
      else Completed 0 ''Chip is ESP32-C5'' [])"



text \<open>
  A session on the workstation with three ports: the manifest and both images are there,
  and every write fails to connect except the one started at the fourth call into the
  world (the second attempt on the scanner module).
\<close>

definition demo_popen :: "nat \<Rightarrow> string list \<Rightarrow> popen_result" where
  "demo_popen k cmd =
     (if k = 3 then Exited 0 [''Hash of data verified.'']
      else Exited 2 [''A fatal error occurred: Failed to connect to ESP32''])"

definition demo_world :: "nat \<Rightarrow> world" where
  "demo_world k = \<lparr>ports_now = three_ports, tool_run = chip_id_answers,
     tool_popen = demo_popen k\<rparr>"

definition demo_boot :: bootstrap where
  "demo_boot = \<lparr>check_esptool = Inr True,
     download_manifest = Inr \<lparr>c5_merged = Some ''c5_merged.bin'',
       wroom_merged = Some ''wroom_merged.bin''\<rparr>,
     download_firmware = (\<lambda>filename. Some (''/tmp/biscuit_firmware/'' @ filename))\<rparr>"

section \<open>Properties\<close>

subsection \<open>Strings\<close>

lemma not_upper_lower_char: "\<not> is_upper (lower_char c)"
  by (auto simp: lower_char_def is_upper_def)

lemma str_in_trans: "str_in a b \<Longrightarrow> str_in b c \<Longrightarrow> str_in a c"
  unfolding str_in_def by (rule sublist_order.order_trans)

lemma str_in_literal_c3: "str_in ''esp32-c'' ''esp32-c3''"
  unfolding str_in_def by (simp add: sublist_Cons_right)

lemma str_in_esp32_c: "str_in ''esp32-c3'' s \<or> str_in ''esp32-c5'' s \<Longrightarrow> str_in ''esp32-c'' s"
proof -
  have "str_in ''esp32-c'' ''esp32-c5''"
    unfolding str_in_def by (simp add: sublist_Cons_right)
  then show "str_in ''esp32-c3'' s \<or> str_in ''esp32-c5'' s \<Longrightarrow> str_in ''esp32-c'' s"
    using str_in_literal_c3 by (blast intro: str_in_trans)
qed

lemma str_in_esp32c: "str_in ''esp32c5'' s \<Longrightarrow> str_in ''esp32c'' s"
proof -
  have "str_in ''esp32c'' ''esp32c5''"
    unfolding str_in_def by (simp add: sublist_Cons_right)
  then show "str_in ''esp32c5'' s \<Longrightarrow> str_in ''esp32c'' s"
    by (rule str_in_trans)
qed

subsection \<open>The chip classifier\<close>

text \<open>
  Claim C2, as stated, fails: the claim sends every output that contains "esp32-c3" to
  Unknown, but the C5 test of line 171 comes first, so an output that names both chips is
  classified as the scanner module.
\<close>

theorem detect_chip_type_c3_counterexample:
  "str_in ''esp32-c3'' (lower (''Chip is ESP32-C3, not ESP32-C5'' @ ''''))
   \<and> detect_chip_type (\<lambda>cmd. Completed 0 ''Chip is ESP32-C3, not ESP32-C5'' '''') ''COM3''
       = Inr (Some C5)"
  by code_simp

text \<open>
  Claim C2, amended. With \<open>output\<close> the tool's stdout followed by its stderr: an output that
  contains "esp32-c5" in any letter case gives \<open>"c5"\<close>; one that contains "esp32-c3", or
  any other marker "esp32-c" or "esp32c", and no C5 marker ("esp32-c5", "esp32c5") gives
  \<open>None\<close>; one that contains "esp32" and no marker "esp32-c" or "esp32c" gives \<open>"wroom"\<close>; a
  timeout or any other \<open>Exception\<close> of the invocation gives \<open>None\<close>.
\<close>

theorem detect_chip_type_classification:
  "(run [sys_executable, ''-m'', ''esptool'', ''--chip'', ''auto'', ''--port'', port, ''chip_id'']
      = Completed rc out err \<longrightarrow>
      (str_in ''esp32-c5'' (lower (out @ err)) \<longrightarrow> detect_chip_type run port = Inr (Some C5))
    \<and> (str_in ''esp32-c3'' (lower (out @ err))
         \<and> \<not> str_in ''esp32-c5'' (lower (out @ err)) \<and> \<not> str_in ''esp32c5'' (lower (out @ err))
         \<longrightarrow> detect_chip_type run port = Inr None)
    \<and> ((str_in ''esp32-c'' (lower (out @ err)) \<or> str_in ''esp32c'' (lower (out @ err)))
         \<and> \<not> str_in ''esp32-c5'' (lower (out @ err)) \<and> \<not> str_in ''esp32c5'' (lower (out @ err))
         \<longrightarrow> detect_chip_type run port = Inr None)
    \<and> (str_in ''esp32'' (lower (out @ err))
         \<and> \<not> str_in ''esp32-c'' (lower (out @ err)) \<and> \<not> str_in ''esp32c'' (lower (out @ err))
         \<longrightarrow> detect_chip_type run port = Inr (Some Wroom)))
  \<and> (run [sys_executable, ''-m'', ''esptool'', ''--chip'', ''auto'', ''--port'', port, ''chip_id'']
      = RunRaised e \<and> is_Exception e \<longrightarrow> detect_chip_type run port = Inr None)"
  using str_in_esp32_c [of "lower (out @ err)"] str_in_esp32c [of "lower (out @ err)"]
  by (auto simp: detect_chip_type_def parse_chip_type_def Let_def)

theorem detect_chip_type_classification_witness:
  "detect_chip_type (\<lambda>cmd. Completed 0 ''Chip is ESP32-C5 (revision v1.0)'' '''') ''COM5'' = Inr (Some C5)
   \<and> detect_chip_type (\<lambda>cmd. Completed 0 ''Chip is ESP32-C3 (QFN32)'' '''') ''COM4'' = Inr None
   \<and> detect_chip_type (\<lambda>cmd. Completed 0 ''Chip is ESP32-D0WD-V3'' '''') ''COM3'' = Inr (Some Wroom)
   \<and> detect_chip_type (\<lambda>cmd. RunRaised (PyExc TimeoutExpired ''timed out'')) ''COM7'' = Inr None"
proof -
  have a: "str_in ''esp32-c5'' (lower (''Chip is ESP32-C5 (revision v1.0)'' @ ''''))"
    by code_simp
  have b: "str_in ''esp32-c3'' (lower (''Chip is ESP32-C3 (QFN32)'' @ ''''))
      \<and> \<not> str_in ''esp32-c5'' (lower (''Chip is ESP32-C3 (QFN32)'' @ ''''))
      \<and> \<not> str_in ''esp32c5'' (lower (''Chip is ESP32-C3 (QFN32)'' @ ''''))"
    by code_simp
  have c: "str_in ''esp32'' (lower (''Chip is ESP32-D0WD-V3'' @ ''''))
      \<and> \<not> str_in ''esp32-c'' (lower (''Chip is ESP32-D0WD-V3'' @ ''''))
      \<and> \<not> str_in ''esp32c'' (lower (''Chip is ESP32-D0WD-V3'' @ ''''))"
    by code_simp
  have d: "is_Exception (PyExc TimeoutExpired ''timed out'')"
    by (simp add: is_Exception_def)
  have "detect_chip_type (\<lambda>cmd. Completed 0 ''Chip is ESP32-C5 (revision v1.0)'' '''') ''COM5''
      = Inr (Some C5)"
    using a detect_chip_type_classification
      [of "\<lambda>cmd. Completed 0 ''Chip is ESP32-C5 (revision v1.0)'' ''''" "''COM5''" 0
          "''Chip is ESP32-C5 (revision v1.0)''" "''''"]
    by simp
  moreover have "detect_chip_type (\<lambda>cmd. Completed 0 ''Chip is ESP32-C3 (QFN32)'' '''') ''COM4''
      = Inr None"
    using b detect_chip_type_classification
      [of "\<lambda>cmd. Completed 0 ''Chip is ESP32-C3 (QFN32)'' ''''" "''COM4''" 0
          "''Chip is ESP32-C3 (QFN32)''" "''''"]
    by simp
  moreover have "detect_chip_type (\<lambda>cmd. Completed 0 ''Chip is ESP32-D0WD-V3'' '''') ''COM3''
      = Inr (Some Wroom)"
    using c detect_chip_type_classification
      [of "\<lambda>cmd. Completed 0 ''Chip is ESP32-D0WD-V3'' ''''" "''COM3''" 0
          "''Chip is ESP32-D0WD-V3''" "''''"]
    by simp
  moreover have "detect_chip_type (\<lambda>cmd. RunRaised (PyExc TimeoutExpired ''timed out'')) ''COM7''
      = Inr None"
    using d detect_chip_type_classification
      [of "\<lambda>cmd. RunRaised (PyExc TimeoutExpired ''timed out'')" "''COM7''" _ _ _
          "PyExc TimeoutExpired ''timed out''"]
    by simp
  ultimately show ?thesis by blast
qed

subsection \<open>Operator prompts\<close>

lemma lower_Nil: "lower [] = []"
  by (simp add: lower_def)

text \<open>
  Claim C9. An empty response (a line that is empty once stripped) gives each prompt its
  default: \<open>prompt_retry\<close> returns \<open>"retry"\<close>, \<open>prompt_no_devices\<close> and
  \<open>prompt_disconnect\<close> return \<open>"rescan"\<close>. The second disjunct of line 323 never holds:
  the answer "r" reaches line 329 and gives \<open>"rescan"\<close>.
\<close>

theorem prompt_empty_response_default:
  "(strip s = [] \<longrightarrow>
      prompt_retry (Line s # rest) = (Retry, rest)
    \<and> prompt_no_devices (Line s # rest) = (Rescan, rest)
    \<and> prompt_disconnect (Line s # rest) = (Rescan, rest))
   \<and> (lower (strip s) = ''r'' \<longrightarrow> prompt_retry (Line s # rest) = (Rescan, rest))"
  by (simp add: lower_Nil)

theorem prompt_empty_response_default_witness:
  "prompt_retry [Line '''', Line ''q''] = (Retry, [Line ''q''])
   \<and> prompt_no_devices [Line '''', Line ''q''] = (Rescan, [Line ''q''])
   \<and> prompt_disconnect [Line '''', Line ''q''] = (Rescan, [Line ''q''])
   \<and> prompt_retry [Line ''R'', Line ''q''] = (Rescan, [Line ''q''])"
proof -
  have a: "strip '''' = []" by (simp add: strip_def rstrip_def)
  have b: "lower (strip ''R'') = ''r''" by code_simp
  show ?thesis
    using a b prompt_empty_response_default [of "''''" "[Line ''q'']"]
      prompt_empty_response_default [of "''R''" "[Line ''q'']"]
    by simp
qed

subsection \<open>The failure classification of \<open>flash_device\<close>\<close>

text \<open>
  Line 296 looks for the capitalised word "Permission" in the lower-cased output, where no
  capital letter is left: the test never succeeds.
\<close>

lemma lower_char_neq_P: "lower_char c \<noteq> CHR ''P''"
proof
  assume "lower_char c = CHR ''P''"
  with not_upper_lower_char [of c] show False by (simp add: is_upper_def)
qed

lemma Permission_not_in_lower: "\<not> str_in ''Permission'' (lower s)"
proof
  assume "str_in ''Permission'' (lower s)"
  then have "set ''Permission'' \<subseteq> set (lower s)"
    unfolding str_in_def by (rule set_mono_sublist)
  then have "CHR ''P'' \<in> lower_char ` set s" by (simp add: lower_def)
  then show False using lower_char_neq_P by (metis imageE)
qed

text \<open>The other branches of lines 287-299 are as the claim has them.\<close>

lemma run_write_classification:
  "run_write (Exited 0 lines) = Inr (True, None)"
  "returncode \<noteq> 0 \<Longrightarrow> str_in ''Failed to connect'' (join [CHR 0x0A] (map rstrip lines)) \<Longrightarrow>
   run_write (Exited returncode lines)
     = Inr (False, Some ''Failed to connect (device not in download mode?)'')"
  "returncode \<noteq> 0 \<Longrightarrow> \<not> str_in ''Failed to connect'' (join [CHR 0x0A] (map rstrip lines)) \<Longrightarrow>
   str_in ''Timed out'' (join [CHR 0x0A] (map rstrip lines)) \<Longrightarrow>
   run_write (Exited returncode lines) = Inr (False, Some ''Connection timed out'')"
  by (simp_all add: run_write_def Let_def)

text \<open>
  Claim C6 (the code departs from it). When the write step exits nonzero and the output
  has neither "Failed to connect" nor "Timed out", \<open>flash_device\<close> returns "Flash failed
  (exit code N)" whatever else the output holds, a permission marker included: the
  permission message of line 297 is never returned.
\<close>

theorem flash_device_permission_never_reported:
  assumes "port_exists plat port = Inr True"
    and "popen (esptool_cmd (FLASH_CONFIG t) port @ [''write_flash'', ''--flash_mode'', ''dio'',
           ''--flash_freq'', flash_freq (FLASH_CONFIG t), ''--flash_size'', ''detect'',
           ''0x0'', firmware_path]) = Exited returncode lines"
    and "returncode \<noteq> 0"
    and "\<not> str_in ''Failed to connect'' (join [CHR 0x0A] (map rstrip lines))"
    and "\<not> str_in ''Timed out'' (join [CHR 0x0A] (map rstrip lines))"
  shows "fst (flash_device plat run popen t port firmware_path False)
    = Inr (False, Some (''Flash failed (exit code '' @ str_int returncode @ '')''))"
  using assms Permission_not_in_lower
  by (simp add: flash_device_def run_write_def Let_def)

theorem flash_device_permission_never_reported_witness:
  "str_in ''Permission'' (join [CHR 0x0A] (map rstrip
       [''A fatal error occurred: Could not open COM3'', ''PermissionError(13, Permission denied)'']))
   \<and> fst (flash_device one_port (\<lambda>cmd. Completed 0 [] [])
        (\<lambda>cmd. Exited 2 [''A fatal error occurred: Could not open COM3'',
                          ''PermissionError(13, Permission denied)''])
        Wroom ''COM3'' ''firmware.bin'' False)
     = Inr (False, Some ''Flash failed (exit code 2)'')"
proof -
  have a: "port_exists one_port ''COM3'' = Inr True" by code_simp
  have b1: "\<not> str_in ''Failed to connect'' (join [CHR 0x0A] (map rstrip
       [''A fatal error occurred: Could not open COM3'', ''PermissionError(13, Permission denied)'']))"
    by code_simp
  have b2: "\<not> str_in ''Timed out'' (join [CHR 0x0A] (map rstrip
       [''A fatal error occurred: Could not open COM3'', ''PermissionError(13, Permission denied)'']))"
    by code_simp
  have b3: "str_in ''Permission'' (join [CHR 0x0A] (map rstrip
       [''A fatal error occurred: Could not open COM3'', ''PermissionError(13, Permission denied)'']))"
    by code_simp
  have c: "str_int 2 = ''2''" by code_simp
  have "fst (flash_device one_port (\<lambda>cmd. Completed 0 [] [])
        (\<lambda>cmd. Exited 2 [''A fatal error occurred: Could not open COM3'',
                          ''PermissionError(13, Permission denied)''])
        Wroom ''COM3'' ''firmware.bin'' False)
     = Inr (False, Some (''Flash failed (exit code '' @ str_int 2 @ '')''))"
    by (rule flash_device_permission_never_reported [OF a _ _ b1 b2]) simp_all
  then show ?thesis using b3 c by simp
qed

subsection \<open>Port enumeration\<close>

text \<open>
  The fallback path never fails its caller on an \<open>Exception\<close>: it returns a list, empty
  when anything went wrong.
\<close>

lemma powershell_ports_degrades:
  "(\<exists>ports. powershell_ports plat = Inr ports)
   \<or> (\<exists>e. powershell plat = RunRaised e \<and> \<not> is_Exception e)"
  by (auto simp: powershell_ports_def split: run_result.splits option.splits ps_json.splits)

text \<open>
  Claim C8 (the code departs from it). The pyserial path does not degrade: an exception of
  \<open>comports()\<close> other than \<open>ImportError\<close> leaves \<open>list_com_ports\<close> and reaches the caller.
  The fallback path, taken after an \<open>ImportError\<close>, does what the claim says: a failed
  PowerShell run gives the empty list.
\<close>

theorem list_com_ports_enumeration_failure:
  "(pyserial plat = Inl e \<and> exc_class_of e \<noteq> ImportError \<longrightarrow> list_com_ports plat = Inl e)
   \<and> (pyserial plat = Inl e \<and> exc_class_of e = ImportError
        \<and> powershell plat = RunRaised e' \<and> is_Exception e' \<longrightarrow> list_com_ports plat = Inr [])"
  by (simp add: list_com_ports_def powershell_ports_def)

theorem list_com_ports_enumeration_failure_witness:
  "list_com_ports comports_fails = Inl (PyExc OtherError ''[WinError 5] Access is denied.'')
   \<and> list_com_ports no_pyserial = Inr []"
proof -
  have a: "pyserial comports_fails = Inl (PyExc OtherError ''[WinError 5] Access is denied.'')
      \<and> exc_class_of (PyExc OtherError ''[WinError 5] Access is denied.'') \<noteq> ImportError"
    by (simp add: comports_fails_def)
  have b: "pyserial no_pyserial = Inl (PyExc ImportError ''No module named serial'')
      \<and> exc_class_of (PyExc ImportError ''No module named serial'') = ImportError
      \<and> powershell no_pyserial
          = RunRaised (PyExc OtherError ''[WinError 2] The system cannot find the file specified'')
      \<and> is_Exception (PyExc OtherError ''[WinError 2] The system cannot find the file specified'')"
    by (simp add: no_pyserial_def is_Exception_def)
  show ?thesis
    using a b
      list_com_ports_enumeration_failure [of comports_fails
        "PyExc OtherError ''[WinError 5] Access is denied.''"]
      list_com_ports_enumeration_failure [of no_pyserial
        "PyExc ImportError ''No module named serial''"
        "PyExc OtherError ''[WinError 2] The system cannot find the file specified''"]
    by blast
qed

subsection \<open>The disconnect check of \<open>flash_device\<close>\<close>

lemma run_write_not_disconnected:
  assumes "\<forall>k. r \<noteq> PopenRaised (PyExc k ''Device disconnected'')"
  shows "run_write r \<noteq> Inr (False, Some ''Device disconnected'')"
proof (cases r)
  case (Exited returncode lines)
  then show ?thesis by (simp add: run_write_def Let_def)
next
  case (PopenRaised e)
  obtain k m where e: "e = PyExc k m" by (cases e)
  with assms PopenRaised have "m \<noteq> ''Device disconnected''" by auto
  with PopenRaised e show ?thesis by (simp add: run_write_def)
qed

lemma run_erase_not_disconnected:
  "run_erase r \<noteq> Some (Inr (False, Some ''Device disconnected''))"
  by (simp add: run_erase_def split: run_result.splits)

lemma flash_device_exception_text:
  assumes "port_exists plat port = Inr True"
    and "popen (esptool_cmd (FLASH_CONFIG t) port @ [''write_flash'', ''--flash_mode'', ''dio'',
           ''--flash_freq'', flash_freq (FLASH_CONFIG t), ''--flash_size'', ''detect'',
           ''0x0'', firmware_path]) = PopenRaised (PyExc OtherError m)"
  shows "fst (flash_device plat run popen t port firmware_path False) = Inr (False, Some m)"
  using assms by (simp add: flash_device_def run_write_def is_Exception_def Let_def)

text \<open>
  Claim C3. \<open>flash_device\<close> returns \<open>(False, "Device disconnected")\<close> if and only if the
  enumeration made at line 234 succeeds and does not list the port, whatever the erase and
  write steps would answer (exit codes, output lines, timeouts); and in that case no
  esptool command is started. The handler of line 304 returns the text of any other
  exception as the message, so the statement takes the write step not to raise an exception
  whose own text is "Device disconnected".
\<close>

theorem flash_device_disconnected_iff:
  assumes "\<forall>k. popen (esptool_cmd (FLASH_CONFIG t) port @ [''write_flash'', ''--flash_mode'', ''dio'',
           ''--flash_freq'', flash_freq (FLASH_CONFIG t), ''--flash_size'', ''detect'',
           ''0x0'', firmware_path]) \<noteq> PopenRaised (PyExc k ''Device disconnected'')"
  shows "(fst (flash_device plat run popen t port firmware_path erase_first)
            = Inr (False, Some ''Device disconnected'')
          \<longleftrightarrow> (\<exists>ports. list_com_ports plat = Inr ports \<and> \<not> list_ex (\<lambda>p. device p = port) ports))
       \<and> ((\<exists>ports. list_com_ports plat = Inr ports \<and> \<not> list_ex (\<lambda>p. device p = port) ports)
          \<longrightarrow> snd (flash_device plat run popen t port firmware_path erase_first) = [])"
proof (cases "list_com_ports plat")
  case (Inl e)
  then show ?thesis by (simp add: flash_device_def port_exists_def)
next
  case (Inr ports)
  show ?thesis
  proof (cases "list_ex (\<lambda>p. device p = port) ports")
    case False
    with Inr show ?thesis by (simp add: flash_device_def port_exists_def)
  next
    case True
    with Inr run_write_not_disconnected [OF assms] run_erase_not_disconnected show ?thesis
      by (auto simp: flash_device_def port_exists_def Let_def split: option.splits)
  qed
qed

theorem flash_device_disconnected_iff_witness:
  "fst (flash_device one_port (\<lambda>cmd. Completed 0 [] []) (\<lambda>cmd. Exited 1 [''Device disconnected''])
          Wroom ''COM7'' ''firmware.bin'' True) = Inr (False, Some ''Device disconnected'')
   \<and> snd (flash_device one_port (\<lambda>cmd. Completed 0 [] []) (\<lambda>cmd. Exited 1 [''Device disconnected''])
          Wroom ''COM7'' ''firmware.bin'' True) = []
   \<and> fst (flash_device one_port (\<lambda>cmd. Completed 0 [] []) (\<lambda>cmd. Exited 1 [''Device disconnected''])
          Wroom ''COM3'' ''firmware.bin'' True) \<noteq> Inr (False, Some ''Device disconnected'')"
proof -
  let ?ports = "[\<lparr>device = ''COM3'', description = ''USB Serial''\<rparr>]"
  have enum: "list_com_ports one_port = Inr ?ports"
    by (simp add: list_com_ports_def one_port_def)
  have absent: "\<not> list_ex (\<lambda>p. device p = ''COM7'') ?ports" by simp
  have present: "list_ex (\<lambda>p. device p = ''COM3'') ?ports" by simp
  have h: "\<forall>k. (\<lambda>cmd. Exited 1 [''Device disconnected'']) c \<noteq> PopenRaised (PyExc k ''Device disconnected'')"
    for c :: "string list"
    by simp
  note gone = flash_device_disconnected_iff [of "\<lambda>cmd. Exited 1 [''Device disconnected'']" Wroom
      "''COM7''" "''firmware.bin''" one_port "\<lambda>cmd. Completed 0 [] []" True, OF h]
  note there = flash_device_disconnected_iff [of "\<lambda>cmd. Exited 1 [''Device disconnected'']" Wroom
      "''COM3''" "''firmware.bin''" one_port "\<lambda>cmd. Completed 0 [] []" True, OF h]
  from gone enum absent have
    "fst (flash_device one_port (\<lambda>cmd. Completed 0 [] []) (\<lambda>cmd. Exited 1 [''Device disconnected''])
          Wroom ''COM7'' ''firmware.bin'' True) = Inr (False, Some ''Device disconnected'')
     \<and> snd (flash_device one_port (\<lambda>cmd. Completed 0 [] []) (\<lambda>cmd. Exited 1 [''Device disconnected''])
          Wroom ''COM7'' ''firmware.bin'' True) = []"
    by blast
  moreover from there enum present have
    "fst (flash_device one_port (\<lambda>cmd. Completed 0 [] []) (\<lambda>cmd. Exited 1 [''Device disconnected''])
          Wroom ''COM3'' ''firmware.bin'' True) \<noteq> Inr (False, Some ''Device disconnected'')"
    by auto
  ultimately show ?thesis by blast
qed

subsection \<open>The device scanner\<close>

text \<open>One step of the loop body: the dictionary after the port's classification.\<close>

lemma scan_loop_Cons:
  "scan_loop run i (p # ps) d0 = Inr (d, checked) \<Longrightarrow>
   \<exists>c d1. detect_chip_type (run i) (device p) = Inr c
     \<and> d1 = (case c of Some C5 \<Rightarrow> d0(C5 := Some (device p))
                      | Some Wroom \<Rightarrow> d0(Wroom := Some (device p)) | None \<Rightarrow> d0)
     \<and> (if truthy (d1 C5) \<and> truthy (d1 Wroom) then d = d1 \<and> checked = [(device p, c)]
         else \<exists>rest. scan_loop run (Suc i) ps d1 = Inr (d, rest) \<and> checked = (device p, c) # rest)"
  by (auto simp: Let_def split: sum.splits if_splits prod.splits)

lemma scan_loop_log:
  "scan_loop run i ps d0 = Inr (d, checked) \<Longrightarrow>
   length checked \<le> length ps
   \<and> (\<forall>j<length checked. fst (checked ! j) = device (ps ! j)
        \<and> detect_chip_type (run (i + j)) (device (ps ! j)) = Inr (snd (checked ! j)))"
proof (induction ps arbitrary: i d0 d checked)
  case Nil
  then show ?case by simp
next
  case (Cons p ps)
  from scan_loop_Cons [OF Cons.prems] obtain c d1 where
    c: "detect_chip_type (run i) (device p) = Inr c" and
    step: "if truthy (d1 C5) \<and> truthy (d1 Wroom) then d = d1 \<and> checked = [(device p, c)]
         else \<exists>rest. scan_loop run (Suc i) ps d1 = Inr (d, rest) \<and> checked = (device p, c) # rest"
    by blast
  show ?case
  proof (cases "truthy (d1 C5) \<and> truthy (d1 Wroom)")
    case True
    with step c show ?thesis by simp
  next
    case False
    with step obtain rest where r: "scan_loop run (Suc i) ps d1 = Inr (d, rest)"
      and ch: "checked = (device p, c) # rest" by auto
    from Cons.IH [OF r] c ch show ?thesis
      by (auto simp: nth_Cons split: nat.splits)
  qed
qed

lemma scan_loop_stop:
  "scan_loop run i ps d0 = Inr (d, checked) \<Longrightarrow> length checked < length ps \<Longrightarrow>
   truthy (d C5) \<and> truthy (d Wroom)"
proof (induction ps arbitrary: i d0 d checked)
  case Nil
  then show ?case by simp
next
  case (Cons p ps)
  from scan_loop_Cons [OF Cons.prems(1)] obtain c d1 where
    step: "if truthy (d1 C5) \<and> truthy (d1 Wroom) then d = d1 \<and> checked = [(device p, c)]
         else \<exists>rest. scan_loop run (Suc i) ps d1 = Inr (d, rest) \<and> checked = (device p, c) # rest"
    by blast
  show ?case
  proof (cases "truthy (d1 C5) \<and> truthy (d1 Wroom)")
    case True
    with step show ?thesis by simp
  next
    case False
    with step obtain rest where r: "scan_loop run (Suc i) ps d1 = Inr (d, rest)"
      and ch: "checked = (device p, c) # rest" by auto
    from Cons.prems(2) ch have "length rest < length ps" by simp
    from Cons.IH [OF r this] show ?thesis .
  qed
qed

lemma scan_loop_last:
  "scan_loop run i ps d0 = Inr (d, checked) \<Longrightarrow>
   d t = (if filter (\<lambda>pc. snd pc = Some t) checked = [] then d0 t
          else Some (fst (last (filter (\<lambda>pc. snd pc = Some t) checked))))"
proof (induction ps arbitrary: i d0 d checked)
  case Nil
  then show ?case by simp
next
  case (Cons p ps)
  from scan_loop_Cons [OF Cons.prems] obtain c d1 where
    d1: "d1 = (case c of Some C5 \<Rightarrow> d0(C5 := Some (device p))
                      | Some Wroom \<Rightarrow> d0(Wroom := Some (device p)) | None \<Rightarrow> d0)" and
    step: "if truthy (d1 C5) \<and> truthy (d1 Wroom) then d = d1 \<and> checked = [(device p, c)]
         else \<exists>rest. scan_loop run (Suc i) ps d1 = Inr (d, rest) \<and> checked = (device p, c) # rest"
    by blast
  have first: "d1 t = (if c = Some t then Some (device p) else d0 t)"
    using d1 by (cases t) (auto split: option.splits device_type.splits)
  show ?case
  proof (cases "truthy (d1 C5) \<and> truthy (d1 Wroom)")
    case True
    with step first show ?thesis by simp
  next
    case False
    with step obtain rest where r: "scan_loop run (Suc i) ps d1 = Inr (d, rest)"
      and ch: "checked = (device p, c) # rest" by auto
    from Cons.IH [OF r] first ch show ?thesis by simp
  qed
qed

lemma sorted_reverse_mset: "mset (sorted_reverse key xs) = mset xs"
  by (simp add: sorted_reverse_def)





text \<open>The example inputs, evaluated.\<close>

lemma three_ports_enum:
  "list_com_ports three_ports = Inr [\<lparr>device = ''COM3'', description = ''USB Serial''\<rparr>,
       \<lparr>device = ''COM5'', description = ''USB JTAG''\<rparr>,
       \<lparr>device = ''COM4'', description = ''USB JTAG''\<rparr>]"
  by (simp add: list_com_ports_def three_ports_def)

lemma three_ports_sorted:
  "sorted_reverse get_port_num [\<lparr>device = ''COM3'', description = ''USB Serial''\<rparr>,
       \<lparr>device = ''COM5'', description = ''USB JTAG''\<rparr>,
       \<lparr>device = ''COM4'', description = ''USB JTAG''\<rparr>]
   = [\<lparr>device = ''COM5'', description = ''USB JTAG''\<rparr>,
      \<lparr>device = ''COM4'', description = ''USB JTAG''\<rparr>,
      \<lparr>device = ''COM3'', description = ''USB Serial''\<rparr>]"
  by code_simp

lemma three_ports_chips:
  "detect_chip_type (chip_id_answers i) ''COM5'' = Inr (Some C5)"
  "detect_chip_type (chip_id_answers i) ''COM4'' = Inr (Some C5)"
  "detect_chip_type (chip_id_answers i) ''COM3'' = Inr (Some Wroom)"
  by code_simp+

lemma three_ports_scan:
  "\<exists>devs. scan_for_devices three_ports chip_id_answers
       = Inr (devs, [(''COM5'', Some C5), (''COM4'', Some C5), (''COM3'', Some Wroom)])
     \<and> devs C5 = Some ''COM4'' \<and> devs Wroom = Some ''COM3''"
  by (simp add: scan_for_devices_def three_ports_enum three_ports_sorted three_ports_chips
      truthy_def Let_def)








text \<open>
  Claim C1, as stated, fails: lines 211 and 214 assign without looking at what is already
  there, so a later port of the same type replaces the earlier one. COM5 is found first as
  a scanner module and COM4 is what the snapshot records.
\<close>

theorem scan_first_found_counterexample:
  "case scan_for_devices three_ports chip_id_answers of
     Inr (devs, checked) \<Rightarrow>
       checked = [(''COM5'', Some C5), (''COM4'', Some C5), (''COM3'', Some Wroom)]
       \<and> devs C5 = Some ''COM4''
   | Inl e \<Rightarrow> False"
  using three_ports_scan by auto

text \<open>
  Claim C1, amended. For every device type the snapshot records the port that was
  classified as that type last among the ports probed (\<open>None\<close> when there was none); the
  ports probed are the first ones of the sorted list, each with the result of its own
  probe, and the scan stops before the end of the list only when both types hold a port;
  and when the enumerated identifiers are pairwise distinct, no port is recorded for both
  types.
\<close>

theorem scan_snapshot_last_found:
  assumes "list_com_ports plat = Inr ports"
    and "scan_for_devices plat run = Inr (devs, checked)"
  shows "devs t = (if filter (\<lambda>pc. snd pc = Some t) checked = [] then None
                   else Some (fst (last (filter (\<lambda>pc. snd pc = Some t) checked))))
    \<and> length checked \<le> length ports
    \<and> (\<forall>j<length checked.
          fst (checked ! j) = device (sorted_reverse get_port_num ports ! j)
        \<and> detect_chip_type (run j) (fst (checked ! j)) = Inr (snd (checked ! j)))
    \<and> (length checked < length ports \<longrightarrow> truthy (devs C5) \<and> truthy (devs Wroom))
    \<and> (distinct (map device ports) \<longrightarrow> devs C5 = Some p \<longrightarrow> devs Wroom \<noteq> Some p)"
proof (cases "ports = []")
  case True
  with assms show ?thesis by (auto simp: scan_for_devices_def)
next
  case False
  let ?ps = "sorted_reverse get_port_num ports"
  from False assms have loop: "scan_loop run 0 ?ps (\<lambda>k. None) = Inr (devs, checked)"
    by (simp add: scan_for_devices_def)
  have len: "length ?ps = length ports" by (simp add: sorted_reverse_def)
  note last = scan_loop_last [OF loop]
  from scan_loop_log [OF loop] have log: "length checked \<le> length ports"
    "\<forall>j<length checked. fst (checked ! j) = device (?ps ! j)
        \<and> detect_chip_type (run j) (fst (checked ! j)) = Inr (snd (checked ! j))"
    using len by auto
  have stop: "length checked < length ports \<longrightarrow> truthy (devs C5) \<and> truthy (devs Wroom)"
    using scan_loop_stop [OF loop] len by simp
  have once: "devs Wroom \<noteq> Some p" if dist: "distinct (map device ports)" and c5: "devs C5 = Some p"
  proof
    assume wr: "devs Wroom = Some p"
    have found: "\<exists>j<length checked. checked ! j = (p, Some t)" if "devs t = Some p" for t
    proof -
      let ?f = "filter (\<lambda>pc. snd pc = Some t) checked"
      from that last [of t] have ne: "?f \<noteq> []" and p: "p = fst (last ?f)"
        by (auto split: if_splits)
      from ne have "last ?f \<in> set ?f" by (rule last_in_set)
      then have "last ?f \<in> set checked" and "snd (last ?f) = Some t" by auto
      with p have "(p, Some t) \<in> set checked" by (metis prod.collapse)
      then show ?thesis by (auto simp: in_set_conv_nth)
    qed
    from found [OF c5] obtain j where j: "j < length checked" "checked ! j = (p, Some C5)" by blast
    from found [OF wr] obtain j' where j': "j' < length checked" "checked ! j' = (p, Some Wroom)" by blast
    have "mset (map device ?ps) = mset (map device ports)"
      by (simp add: sorted_reverse_mset)
    with dist have d: "distinct (map device ?ps)" by (metis mset_eq_imp_distinct_iff)
    from j j' log(1) len have lt: "j < length (map device ?ps)" "j' < length (map device ?ps)"
      by simp_all
    from log(2) j j' have "device (?ps ! j) = device (?ps ! j')" by (metis fst_conv)
    with lt have "map device ?ps ! j = map device ?ps ! j'" by simp
    with d lt have "j = j'" by (simp only: nth_eq_iff_index_eq)
    with j j' show False by simp
  qed
  from last [of t] log stop once show ?thesis by blast
qed

theorem scan_snapshot_last_found_witness:
  "case scan_for_devices three_ports chip_id_answers of
     Inr (devs, checked) \<Rightarrow>
       devs C5 = Some ''COM4'' \<and> devs Wroom = Some ''COM3'' \<and> devs Wroom \<noteq> Some ''COM4''
   | Inl e \<Rightarrow> False"
proof -
  from three_ports_scan obtain devs where scan:
    "scan_for_devices three_ports chip_id_answers
     = Inr (devs, [(''COM5'', Some C5), (''COM4'', Some C5), (''COM3'', Some Wroom)])" by blast
  have dist: "distinct (map device [\<lparr>device = ''COM3'', description = ''USB Serial''\<rparr>,
       \<lparr>device = ''COM5'', description = ''USB JTAG''\<rparr>,
       \<lparr>device = ''COM4'', description = ''USB JTAG''\<rparr>])"
    by simp
  from scan_snapshot_last_found [OF three_ports_enum scan, of C5 "''COM4''"] dist
  have c5: "devs C5 = Some ''COM4''" and once: "devs Wroom \<noteq> Some ''COM4''" by simp_all
  from scan_snapshot_last_found [OF three_ports_enum scan, of Wroom]
  have wr: "devs Wroom = Some ''COM3''" by simp
  from c5 wr once scan show ?thesis by simp
qed

subsection \<open>The session: one pass through each loop body\<close>

text \<open>
  What one pass through the body of the inner loop adds to the events and changes in
  \<open>flash_results\<close>, whatever the world answers.
\<close>

lemma flash_attempt_effect:
  assumes "flash_attempt w t port fw er st = (r, st')"
  shows "\<exists>evs. trace st' = trace st @ EvFlash t port er # evs \<and>
     ((\<exists>e. r = Leave (Raise e)) \<and> (evs = [] \<or> evs = [EvPortExists port])
        \<and> flash_results st' = flash_results st
      \<or> r = Leave Break \<and> evs = [EvOutcome t True]
        \<and> flash_results st' = (flash_results st)(t \<mapsto> True)
      \<or> (\<exists>a. r = Leave (if a = Quit then Return 1 else Break)
            \<and> evs = [EvPortExists port, EvDisconnect t a])
        \<and> flash_results st' = flash_results st
      \<or> (\<exists>a. (a = Retry \<or> a = Erase) \<and> r = Continue (a = Erase)
            \<and> evs = [EvPortExists port, EvRetry t a])
        \<and> flash_results st' = flash_results st
      \<or> r = Leave Break \<and> evs = [EvPortExists port, EvRetry t Skip, EvOutcome t False]
        \<and> flash_results st' = (flash_results st)(t \<mapsto> False)
      \<or> (\<exists>a. (a = Rescan \<or> a = Quit) \<and> r = Leave (if a = Quit then Return 1 else Break)
            \<and> evs = [EvPortExists port, EvRetry t a])
        \<and> flash_results st' = flash_results st)"
proof -
  let ?st1 = "tick (emit (EvFlash t port er) st)"
  let ?st2 = "tick (emit (EvPortExists port) ?st1)"
  have t1: "trace ?st1 = trace st @ [EvFlash t port er]" "flash_results ?st1 = flash_results st"
    by (simp_all add: tick_def emit_def)
  have t2: "trace ?st2 = trace st @ [EvFlash t port er, EvPortExists port]"
    "flash_results ?st2 = flash_results st"
    by (simp_all add: tick_def emit_def)
  show ?thesis
  proof (cases "fst (flash_device (ports_now (w (clock st))) (tool_run (w (clock st)) 0)
      (tool_popen (w (clock st))) t port fw er)")
    case (Inl e)
    with assms have "r = Leave (Raise e)" "st' = ?st1"
      by (simp_all add: flash_attempt_def Let_def)
    with t1 show ?thesis by simp
  next
    case (Inr res)
    obtain success error where res: "res = (success, error)" by (cases res)
    show ?thesis
    proof (cases success)
      case True
      with assms Inr res have "r = Leave Break" "st' = set_result t True ?st1"
        by (simp_all add: flash_attempt_def Let_def)
      with t1 show ?thesis by (simp add: set_result_def emit_def)
    next
      case False
      note failed = this
      show ?thesis
      proof (cases "port_exists (ports_now (w (clock ?st1))) port")
        case (Inl e)
        with assms Inr res failed have "r = Leave (Raise e)" "st' = ?st2"
          by (simp_all add: flash_attempt_def Let_def)
        with t2 show ?thesis by simp
      next
        case (Inr exists)
        note pe = this
        show ?thesis
        proof (cases exists)
          case False
          obtain a rest where p: "prompt_disconnect (stdin ?st2) = (a, rest)"
            by (cases "prompt_disconnect (stdin ?st2)")
          with assms \<open>fst _ = Inr res\<close> res failed pe False
          have "r = Leave (if a = Quit then Return 1 else Break)"
            "st' = emit (EvDisconnect t a) (?st2\<lparr>stdin := rest\<rparr>)"
            by (simp_all add: flash_attempt_def Let_def split: if_splits)
          with t2 show ?thesis by (simp add: emit_def)
        next
          case True
          obtain a rest where p: "prompt_retry (stdin ?st2) = (a, rest)"
            by (cases "prompt_retry (stdin ?st2)")
          let ?st3 = "emit (EvRetry t a) (?st2\<lparr>stdin := rest\<rparr>)"
          have t3: "trace ?st3 = trace st @ [EvFlash t port er, EvPortExists port, EvRetry t a]"
            "flash_results ?st3 = flash_results st"
            by (simp_all add: tick_def emit_def)
          from assms \<open>fst _ = Inr res\<close> res failed pe True p
          have "(r, st') = (case a of Retry \<Rightarrow> (Continue False, ?st3)
              | Erase \<Rightarrow> (Continue True, ?st3)
              | Skip \<Rightarrow> (Leave Break, set_result t False ?st3)
              | Rescan \<Rightarrow> (Leave Break, ?st3)
              | Quit \<Rightarrow> (Leave (Return 1), ?st3))"
            by (simp add: flash_attempt_def Let_def)
          with t3 show ?thesis
            by (cases a) (simp_all add: set_result_def emit_def)
        qed
      qed
    qed
  qed
qed

lemma flash_attempt_elim:
  assumes "flash_attempt w t port fw er st = (r, st')"
  obtains
    (raise1) e where "r = Leave (Raise e)" "trace st' = trace st @ [EvFlash t port er]"
      "flash_results st' = flash_results st"
  | (raise2) e where "r = Leave (Raise e)"
      "trace st' = trace st @ [EvFlash t port er, EvPortExists port]"
      "flash_results st' = flash_results st"
  | (success) "r = Leave Break" "trace st' = trace st @ [EvFlash t port er, EvOutcome t True]"
      "flash_results st' = (flash_results st)(t \<mapsto> True)"
  | (disconnect) a where "r = Leave (if a = Quit then Return 1 else Break)"
      "trace st' = trace st @ [EvFlash t port er, EvPortExists port, EvDisconnect t a]"
      "flash_results st' = flash_results st"
  | (again) a where "a = Retry \<or> a = Erase" "r = Continue (a = Erase)"
      "trace st' = trace st @ [EvFlash t port er, EvPortExists port, EvRetry t a]"
      "flash_results st' = flash_results st"
  | (skip) "r = Leave Break"
      "trace st' = trace st @ [EvFlash t port er, EvPortExists port, EvRetry t Skip,
         EvOutcome t False]"
      "flash_results st' = (flash_results st)(t \<mapsto> False)"
  | (leave) a where "a = Rescan \<or> a = Quit" "r = Leave (if a = Quit then Return 1 else Break)"
      "trace st' = trace st @ [EvFlash t port er, EvPortExists port, EvRetry t a]"
      "flash_results st' = flash_results st"
proof -
  from flash_attempt_effect [OF assms] obtain evs where
    tr: "trace st' = trace st @ EvFlash t port er # evs" and
    c: "(\<exists>e. r = Leave (Raise e)) \<and> (evs = [] \<or> evs = [EvPortExists port])
        \<and> flash_results st' = flash_results st
      \<or> r = Leave Break \<and> evs = [EvOutcome t True]
        \<and> flash_results st' = (flash_results st)(t \<mapsto> True)
      \<or> (\<exists>a. r = Leave (if a = Quit then Return 1 else Break)
            \<and> evs = [EvPortExists port, EvDisconnect t a])
        \<and> flash_results st' = flash_results st
      \<or> (\<exists>a. (a = Retry \<or> a = Erase) \<and> r = Continue (a = Erase)
            \<and> evs = [EvPortExists port, EvRetry t a])
        \<and> flash_results st' = flash_results st
      \<or> r = Leave Break \<and> evs = [EvPortExists port, EvRetry t Skip, EvOutcome t False]
        \<and> flash_results st' = (flash_results st)(t \<mapsto> False)
      \<or> (\<exists>a. (a = Rescan \<or> a = Quit) \<and> r = Leave (if a = Quit then Return 1 else Break)
            \<and> evs = [EvPortExists port, EvRetry t a])
        \<and> flash_results st' = flash_results st"
    by blast
  from c consider
      (1) e where "r = Leave (Raise e)" "evs = []" "flash_results st' = flash_results st"
    | (2) e where "r = Leave (Raise e)" "evs = [EvPortExists port]"
        "flash_results st' = flash_results st"
    | (3) "r = Leave Break" "evs = [EvOutcome t True]"
        "flash_results st' = (flash_results st)(t \<mapsto> True)"
    | (4) a where "r = Leave (if a = Quit then Return 1 else Break)"
        "evs = [EvPortExists port, EvDisconnect t a]" "flash_results st' = flash_results st"
    | (5) a where "a = Retry \<or> a = Erase" "r = Continue (a = Erase)"
        "evs = [EvPortExists port, EvRetry t a]" "flash_results st' = flash_results st"
    | (6) "r = Leave Break" "evs = [EvPortExists port, EvRetry t Skip, EvOutcome t False]"
        "flash_results st' = (flash_results st)(t \<mapsto> False)"
    | (7) a where "a = Rescan \<or> a = Quit" "r = Leave (if a = Quit then Return 1 else Break)"
        "evs = [EvPortExists port, EvRetry t a]" "flash_results st' = flash_results st"
    by blast
  then show thesis
  proof cases
    case 1 with tr show ?thesis by (intro raise1) simp_all
  next
    case 2 with tr show ?thesis by (intro raise2) simp_all
  next
    case 3 with tr show ?thesis by (intro success) simp_all
  next
    case 4 with tr show ?thesis by (intro disconnect) simp_all
  next
    case 5 with tr show ?thesis by (intro again) simp_all
  next
    case 6 with tr show ?thesis by (intro skip) simp_all
  next
    case 7 with tr show ?thesis by (intro leave) simp_all
  qed
qed

lemma check_done_effect:
  assumes "check_done st = (r, st')"
  shows "flash_results st' = flash_results st \<and>
     (r = Next \<and> (trace st' = trace st \<or> (\<exists>c. trace st' = trace st @ [EvContinue c]))
      \<or> (\<exists>code. r = Stop (Returned code)
           \<and> (code = 0 \<longleftrightarrow> flash_results st C5 = Some True \<or> flash_results st Wroom = Some True)
           \<and> (code = 0 \<or> code = 1)
           \<and> (trace st' = trace st @ [EvSummary]
               \<or> (\<exists>c. trace st' = trace st @ [EvContinue c, EvSummary]))))"
proof -
  have sum: "summary s = (Returned (if flash_results s C5 = Some True \<or> flash_results s Wroom = Some True
      then 0 else 1), emit EvSummary s)" for s
    by (simp add: summary_def Let_def)
  show ?thesis
  proof (cases "filter (\<lambda>k. flash_results st k = None) [C5, Wroom] = []")
    case True
    with assms have "r = Stop (fst (summary st))" "st' = snd (summary st)"
      by (simp_all add: check_done_def Let_def split: prod.splits)
    then show ?thesis by (simp add: sum emit_def)
  next
    case False
    note pending = this
    show ?thesis
    proof (cases "filter (\<lambda>k. flash_results st k \<noteq> None) [C5, Wroom] = []")
      case True
      with assms pending have "r = Next" "st' = st"
        by (simp_all add: check_done_def Let_def)
      then show ?thesis by simp
    next
      case False
      note handled = this
      show ?thesis
      proof (cases "stdin st")
        case Nil
        with assms pending handled
        have "r = Stop (fst (summary (emit (EvContinue None) st)))"
          "st' = snd (summary (emit (EvContinue None) st))"
          by (simp_all add: check_done_def Let_def split: prod.splits)
        then show ?thesis by (simp add: sum emit_def)
      next
        case (Cons x rest)
        show ?thesis
        proof (cases x)
          case Interrupt
          with assms pending handled Cons
          have "r = Stop (fst (summary (emit (EvContinue None) (st\<lparr>stdin := rest\<rparr>))))"
            "st' = snd (summary (emit (EvContinue None) (st\<lparr>stdin := rest\<rparr>)))"
            by (simp_all add: check_done_def Let_def split: prod.splits)
          then show ?thesis by (simp add: sum emit_def)
        next
          case (Line s)
          let ?st1 = "emit (EvContinue (Some (lower (strip s)))) (st\<lparr>stdin := rest\<rparr>)"
          show ?thesis
          proof (cases "lower (strip s) = ''q''")
            case True
            with assms pending handled Cons Line
            have "r = Stop (fst (summary ?st1))" "st' = snd (summary ?st1)"
              by (simp_all add: check_done_def Let_def split: prod.splits)
            then show ?thesis by (simp add: sum emit_def)
          next
            case False
            with assms pending handled Cons Line
            have "r = Next" "st' = ?st1"
              by (simp_all add: check_done_def Let_def split: prod.splits)
            then show ?thesis by (simp add: emit_def)
          qed
        qed
      qed
    qed
  qed
qed

lemma flash_block_cases:
  assumes "flash_block n w t devs fw st = (ex, st')"
  shows "ex = Break \<and> st' = st
    \<or> (\<exists>port. flash_results st t = None \<and> flash_loop n w t port fw False st = (ex, st'))"
  using assms by (auto simp: flash_block_def split: option.splits if_splits)

lemma main_iteration_elim:
  assumes "main_iteration n w f1 f2 st = (r, st')"
  obtains
    (raised) e where "r = Stop (Raised e)" "trace st' = trace st @ [EvScan]"
      "flash_results st' = flash_results st"
  | (nodev) a where "r = (if a = Quit then Stop (Returned 1) else Next)"
      "trace st' = trace st @ [EvScan, EvNoDevices a]" "flash_results st' = flash_results st"
  | (first) devs st1 ex1 where "trace st1 = trace st @ [EvScan]"
      "flash_results st1 = flash_results st" "flash_block n w C5 devs f1 st1 = (ex1, st')"
      "(\<exists>c. ex1 = Return c \<and> r = Stop (Returned c))
        \<or> (\<exists>e. ex1 = Raise e \<and> r = Stop (Raised e)) \<or> (ex1 = Fuel \<and> r = Stop OutOfFuel)"
  | (second) devs st1 st2 ex2 where "trace st1 = trace st @ [EvScan]"
      "flash_results st1 = flash_results st" "flash_block n w C5 devs f1 st1 = (Break, st2)"
      "flash_block n w Wroom devs f2 st2 = (ex2, st')"
      "(\<exists>c. ex2 = Return c \<and> r = Stop (Returned c))
        \<or> (\<exists>e. ex2 = Raise e \<and> r = Stop (Raised e)) \<or> (ex2 = Fuel \<and> r = Stop OutOfFuel)"
  | (checked) devs st1 st2 st3 where "trace st1 = trace st @ [EvScan]"
      "flash_results st1 = flash_results st" "flash_block n w C5 devs f1 st1 = (Break, st2)"
      "flash_block n w Wroom devs f2 st2 = (Break, st3)" "check_done st3 = (r, st')"
proof -
  let ?st1 = "tick (emit EvScan st)"
  have t1: "trace ?st1 = trace st @ [EvScan]" "flash_results ?st1 = flash_results st"
    by (simp_all add: tick_def emit_def)
  show thesis
  proof (cases "scan_for_devices (ports_now (w (clock st))) (tool_run (w (clock st)))")
    case (Inl e)
    with assms have "r = Stop (Raised e)" "st' = ?st1"
      by (simp_all add: main_iteration_def Let_def)
    with t1 show thesis by (intro raised) simp_all
  next
    case (Inr found)
    obtain devs checked where found: "found = (devs, checked)" by (cases found)
    show thesis
    proof (cases "truthy (devs C5) \<or> truthy (devs Wroom)")
      case False
      obtain a rest where p: "prompt_no_devices (stdin ?st1) = (a, rest)"
        by (cases "prompt_no_devices (stdin ?st1)")
      with assms Inr found False
      have "r = (if a = Quit then Stop (Returned 1) else Next)"
        "st' = emit (EvNoDevices a) (?st1\<lparr>stdin := rest\<rparr>)"
        by (simp_all add: main_iteration_def Let_def split: if_splits)
      with t1 show thesis by (intro nodev [of a]) (simp_all add: emit_def)
    next
      case True
      then have nt: "\<not> (\<not> truthy (devs C5) \<and> \<not> truthy (devs Wroom))" by simp
      obtain ex1 st2 where b1: "flash_block n w C5 devs f1 ?st1 = (ex1, st2)"
        by (cases "flash_block n w C5 devs f1 ?st1")
      obtain ex2 st3 where b2: "flash_block n w Wroom devs f2 st2 = (ex2, st3)"
        by (cases "flash_block n w Wroom devs f2 st2")
      show thesis
      proof (cases ex1)
        case (Return c)
        with assms Inr found nt b1 have "r = Stop (Returned c)" "st' = st2"
          by (simp_all add: main_iteration_def Let_def)
        with t1 b1 Return show thesis by (intro first [of ?st1 devs ex1]) simp_all
      next
        case (Raise e)
        with assms Inr found nt b1 have "r = Stop (Raised e)" "st' = st2"
          by (simp_all add: main_iteration_def Let_def)
        with t1 b1 Raise show thesis by (intro first [of ?st1 devs ex1]) simp_all
      next
        case Fuel
        with assms Inr found nt b1 have "r = Stop OutOfFuel" "st' = st2"
          by (simp_all add: main_iteration_def Let_def)
        with t1 b1 Fuel show thesis by (intro first [of ?st1 devs ex1]) simp_all
      next
        case Break
        note br1 = this
        show thesis
        proof (cases ex2)
          case (Return c)
          with assms Inr found nt b1 b2 br1 have "r = Stop (Returned c)" "st' = st3"
            by (simp_all add: main_iteration_def Let_def)
          with t1 b1 b2 br1 Return show thesis
            by (intro second [of ?st1 devs st2 ex2]) simp_all
        next
          case (Raise e)
          with assms Inr found nt b1 b2 br1 have "r = Stop (Raised e)" "st' = st3"
            by (simp_all add: main_iteration_def Let_def)
          with t1 b1 b2 br1 Raise show thesis
            by (intro second [of ?st1 devs st2 ex2]) simp_all
        next
          case Fuel
          with assms Inr found nt b1 b2 br1 have "r = Stop OutOfFuel" "st' = st3"
            by (simp_all add: main_iteration_def Let_def)
          with t1 b1 b2 br1 Fuel show thesis
            by (intro second [of ?st1 devs st2 ex2]) simp_all
        next
          case Break
          with assms Inr found nt b1 b2 br1 have "check_done st3 = (r, st')"
            by (simp add: main_iteration_def Let_def)
          with t1 b1 b2 br1 Break show thesis
            by (intro checked [of ?st1 devs st2 st3]) simp_all
        qed
      qed
    qed
  qed
qed

lemma main_cases:
  assumes "main n boot w inp = (status, st)"
  shows "st = session0 inp \<and> (status = Returned 1 \<or> (\<exists>e. status = Raised e))
    \<or> (\<exists>f1 f2. main_loop n w f1 f2 (session0 inp) = (status, st))"
  using assms
  by (auto simp: main_def Let_def split: sum.splits if_splits option.splits)

text \<open>The two example sessions, evaluated.\<close>

lemma demo_rescan_run:
  "case main 4 demo_boot demo_world [Line ''e'', Line ''r'', Line [], Line ''q''] of
     (status, st) \<Rightarrow> status = Returned 1
       \<and> trace st = [EvScan, EvFlash C5 ''COM4'' False, EvPortExists ''COM4'', EvRetry C5 Erase,
         EvFlash C5 ''COM4'' True, EvOutcome C5 True, EvFlash Wroom ''COM3'' False,
         EvPortExists ''COM3'', EvRetry Wroom Rescan, EvContinue (Some []), EvScan,
         EvFlash Wroom ''COM3'' False, EvPortExists ''COM3'', EvRetry Wroom Quit]"
  by code_simp

lemma demo_skip_run:
  "case main 4 demo_boot demo_world [Line ''e'', Line ''s''] of
     (status, st) \<Rightarrow> status = Returned 0
       \<and> trace st = [EvScan, EvFlash C5 ''COM4'' False, EvPortExists ''COM4'', EvRetry C5 Erase,
         EvFlash C5 ''COM4'' True, EvOutcome C5 True, EvFlash Wroom ''COM3'' False,
         EvPortExists ''COM3'', EvRetry Wroom Skip, EvOutcome Wroom False, EvSummary]"
  by code_simp

subsection \<open>A terminal outcome is final\<close>

lemma settled_Nil: "settled res []"
  by (simp add: settled_def)

lemma settled_other:
  assumes "settled res tr" and "\<forall>t b. e \<noteq> EvOutcome t b" and "\<forall>t. concerns t e \<longrightarrow> res t = None"
  shows "settled res (tr @ [e])"
  unfolding settled_def
proof (intro allI impI)
  fix t before b after
  assume eq: "tr @ [e] = before @ EvOutcome t b # after"
  from eq assms(2) have "after \<noteq> []" by (cases after) auto
  then obtain after' where after: "after = after' @ [last after]"
    by (metis append_butlast_last_id)
  with eq have tr: "tr = before @ EvOutcome t b # after'" and e: "e = last after"
    by (metis append_Cons append_assoc append1_eq_conv)+
  from assms(1) tr have old: "\<forall>x\<in>set after'. \<not> concerns t x" "res t = Some b"
    by (auto simp: settled_def)
  with assms(3) have "\<not> concerns t e" by auto
  with old after e show "(\<forall>x\<in>set after. \<not> concerns t x) \<and> res t = Some b"
    by (metis Un_iff empty_iff empty_set set_ConsD set_append)
qed

lemma settled_outcome:
  assumes "settled res tr" and "res t = None"
  shows "settled (res(t \<mapsto> b)) (tr @ [EvOutcome t b])"
  unfolding settled_def
proof (intro allI impI)
  fix t' before b' after
  assume eq: "tr @ [EvOutcome t b] = before @ EvOutcome t' b' # after"
  show "(\<forall>x\<in>set after. \<not> concerns t' x) \<and> (res(t \<mapsto> b)) t' = Some b'"
  proof (cases "after = []")
    case True
    with eq show ?thesis by simp
  next
    case False
    then obtain after' where after: "after = after' @ [last after]"
      by (metis append_butlast_last_id)
    with eq have tr: "tr = before @ EvOutcome t' b' # after'" and e: "EvOutcome t b = last after"
      by (metis append_Cons append_assoc append1_eq_conv)+
    from assms(1) tr have old: "\<forall>x\<in>set after'. \<not> concerns t' x" "res t' = Some b'"
      by (auto simp: settled_def)
    with assms(2) have "t' \<noteq> t" by auto
    then have "\<not> concerns t' (EvOutcome t b)" by simp
    with old after e \<open>t' \<noteq> t\<close> show ?thesis
      by (metis Un_iff empty_iff empty_set fun_upd_other set_ConsD set_append)
  qed
qed

lemma settled_frame:
  "settled res tr \<Longrightarrow> res t = None \<Longrightarrow> settled res (tr @ [EvFlash t port er])"
  "settled res tr \<Longrightarrow> settled res (tr @ [EvPortExists port])"
  "settled res tr \<Longrightarrow> settled res (tr @ [EvDisconnect t a])"
  "settled res tr \<Longrightarrow> settled res (tr @ [EvRetry t a])"
  "settled res tr \<Longrightarrow> settled res (tr @ [EvScan])"
  "settled res tr \<Longrightarrow> settled res (tr @ [EvNoDevices a])"
  "settled res tr \<Longrightarrow> settled res (tr @ [EvContinue c])"
  "settled res tr \<Longrightarrow> settled res (tr @ [EvSummary])"
  by (rule settled_other; simp)+

lemma flash_attempt_settled:
  assumes "flash_attempt w t port fw er st = (r, st')"
    and "settled (flash_results st) (trace st)" and "flash_results st t = None"
  shows "settled (flash_results st') (trace st')
    \<and> ((\<exists>er'. r = Continue er') \<longrightarrow> flash_results st' t = None)"
proof -
  have s1: "settled (flash_results st) (trace st @ [EvFlash t port er])"
    using assms(2,3) by (rule settled_frame)
  then have s2: "settled (flash_results st) ((trace st @ [EvFlash t port er]) @ [EvPortExists port])"
    by (rule settled_frame)
  then have s3: "settled (flash_results st)
      (((trace st @ [EvFlash t port er]) @ [EvPortExists port]) @ [EvRetry t a])" for a
    by (rule settled_frame)
  have s3': "settled (flash_results st)
      (((trace st @ [EvFlash t port er]) @ [EvPortExists port]) @ [EvDisconnect t a])" for a
    using s2 by (rule settled_frame)
  have s4: "settled ((flash_results st)(t \<mapsto> True))
      ((trace st @ [EvFlash t port er]) @ [EvOutcome t True])"
    using s1 assms(3) by (rule settled_outcome)
  have s5: "settled ((flash_results st)(t \<mapsto> False))
      ((((trace st @ [EvFlash t port er]) @ [EvPortExists port]) @ [EvRetry t Skip])
        @ [EvOutcome t False])"
    using s3 assms(3) by (rule settled_outcome)
  from flash_attempt_effect [OF assms(1)] s1 s2 s3 s3' s4 s5 assms(3) show ?thesis
    by (elim exE conjE disjE) simp_all
qed

lemma flash_loop_settled:
  "flash_loop n w t port fw er st = (ex, st') \<Longrightarrow>
   settled (flash_results st) (trace st) \<Longrightarrow> flash_results st t = None \<Longrightarrow>
   settled (flash_results st') (trace st')"
proof (induction n arbitrary: er st)
  case 0
  then show ?case by simp
next
  case (Suc n)
  obtain r st1 where a: "flash_attempt w t port fw er st = (r, st1)"
    by (cases "flash_attempt w t port fw er st")
  note s = flash_attempt_settled [OF a Suc.prems(2,3)]
  show ?case
  proof (cases r)
    case (Leave ex')
    with Suc.prems(1) a s show ?thesis by simp
  next
    case (Continue er')
    with Suc.prems(1) a have "flash_loop n w t port fw er' st1 = (ex, st')" by simp
    with s Continue show ?thesis by (intro Suc.IH) auto
  qed
qed

lemma flash_block_settled:
  assumes "flash_block n w t devs fw st = (ex, st')" and "settled (flash_results st) (trace st)"
  shows "settled (flash_results st') (trace st')"
  using flash_block_cases [OF assms(1)] assms(2) by (auto dest: flash_loop_settled)

lemma check_done_settled:
  assumes "check_done st = (r, st')" and "settled (flash_results st) (trace st)"
  shows "settled (flash_results st') (trace st')"
proof -
  have "settled (flash_results st) ((trace st @ [EvContinue c]) @ [EvSummary])" for c
    using assms(2) by (intro settled_frame)
  with check_done_effect [OF assms(1)] assms(2) settled_frame(7,8) [OF assms(2)]
  show ?thesis by auto
qed

lemma main_iteration_settled:
  assumes "main_iteration n w f1 f2 st = (r, st')" and "settled (flash_results st) (trace st)"
  shows "settled (flash_results st') (trace st')"
proof -
  have scan: "settled (flash_results st) (trace st @ [EvScan])"
    using assms(2) by (rule settled_frame)
  have nodev: "settled (flash_results st) (trace st @ [EvScan, EvNoDevices a])" for a
    using settled_frame(6) [OF scan, of a] by simp
  have start: "settled (flash_results st1) (trace st1)"
    if "trace st1 = trace st @ [EvScan]" "flash_results st1 = flash_results st" for st1 :: session
    using that scan by simp
  from assms(1) show ?thesis
  proof (cases rule: main_iteration_elim)
    case (raised e)
    with scan show ?thesis by simp
  next
    case (nodev a)
    with \<open>\<And>a. settled (flash_results st) (trace st @ [EvScan, EvNoDevices a])\<close>
    show ?thesis by simp
  next
    case (first devs st1 ex1)
    from first(3) start [OF first(1,2)] show ?thesis by (rule flash_block_settled)
  next
    case (second devs st1 st2 ex2)
    from second(3) start [OF second(1,2)] have "settled (flash_results st2) (trace st2)"
      by (rule flash_block_settled)
    with second(4) show ?thesis by (rule flash_block_settled)
  next
    case (checked devs st1 st2 st3)
    from checked(3) start [OF checked(1,2)] have "settled (flash_results st2) (trace st2)"
      by (rule flash_block_settled)
    with checked(4) have "settled (flash_results st3) (trace st3)"
      by (rule flash_block_settled)
    with checked(5) show ?thesis by (rule check_done_settled)
  qed
qed

lemma main_loop_settled:
  "main_loop n w f1 f2 st = (status, st') \<Longrightarrow> settled (flash_results st) (trace st) \<Longrightarrow>
   settled (flash_results st') (trace st')"
proof (induction n arbitrary: st)
  case 0
  then show ?case by simp
next
  case (Suc n)
  obtain r st1 where a: "main_iteration n w f1 f2 st = (r, st1)"
    by (cases "main_iteration n w f1 f2 st")
  note s = main_iteration_settled [OF a Suc.prems(2)]
  show ?case
  proof (cases r)
    case (Stop x)
    with Suc.prems(1) a s show ?thesis by simp
  next
    case Next
    with Suc.prems(1) a have "main_loop n w f1 f2 st1 = (status, st')" by simp
    then show ?thesis using s by (rule Suc.IH)
  qed
qed

text \<open>
  Claim C4. Whatever the world answers and the operator types, and for any number of
  passes through the loops (so across any number of rescans): once \<open>flash_results[t]\<close>
  has been assigned (\<open>True\<close> succeeded, \<open>False\<close> skipped), no later event is a
  \<open>flash_device\<close> call for \<open>t\<close> or another assignment to \<open>flash_results[t]\<close>, and the
  dictionary holds the value assigned.
\<close>

theorem terminal_outcome_is_final:
  assumes "main n boot w inp = (status, st)"
    and "trace st = before @ EvOutcome t b # after"
  shows "(\<forall>e\<in>set after. (\<forall>port er. e \<noteq> EvFlash t port er) \<and> (\<forall>b'. e \<noteq> EvOutcome t b'))
    \<and> flash_results st t = Some b"
proof -
  have "settled (flash_results st) (trace st)"
    using main_cases [OF assms(1)]
    by (auto simp: session0_def settled_Nil dest!: main_loop_settled)
  with assms(2) have "\<forall>e\<in>set after. \<not> concerns t e" and "flash_results st t = Some b"
    by (auto simp: settled_def)
  then show ?thesis by auto
qed

theorem terminal_outcome_is_final_witness:
  "\<exists>status st. main 4 demo_boot demo_world [Line ''e'', Line ''r'', Line [], Line ''q'']
       = (status, st)
     \<and> trace st = [EvScan, EvFlash C5 ''COM4'' False, EvPortExists ''COM4'', EvRetry C5 Erase,
         EvFlash C5 ''COM4'' True]
       @ EvOutcome C5 True
       # [EvFlash Wroom ''COM3'' False, EvPortExists ''COM3'', EvRetry Wroom Rescan,
          EvContinue (Some []), EvScan, EvFlash Wroom ''COM3'' False, EvPortExists ''COM3'',
          EvRetry Wroom Quit]
     \<and> flash_results st C5 = Some True"
proof -
  from demo_rescan_run obtain status st where
    run: "main 4 demo_boot demo_world [Line ''e'', Line ''r'', Line [], Line ''q''] = (status, st)"
    and tr: "trace st = [EvScan, EvFlash C5 ''COM4'' False, EvPortExists ''COM4'', EvRetry C5 Erase,
         EvFlash C5 ''COM4'' True]
       @ EvOutcome C5 True
       # [EvFlash Wroom ''COM3'' False, EvPortExists ''COM3'', EvRetry Wroom Rescan,
          EvContinue (Some []), EvScan, EvFlash Wroom ''COM3'' False, EvPortExists ''COM3'',
          EvRetry Wroom Quit]"
    by (auto split: prod.splits)
  from terminal_outcome_is_final [OF run tr] have "flash_results st C5 = Some True" ..
  with run tr show ?thesis by blast
qed

subsection \<open>The \<open>erase_first\<close> flag\<close>

lemma erase_ok_Nil: "erase_ok []"
  by (simp add: erase_ok_def)

lemma erase_ok_other:
  assumes "erase_ok tr" and "\<forall>t port er. e \<noteq> EvFlash t port er"
  shows "erase_ok (tr @ [e])"
  unfolding erase_ok_def
proof (intro allI impI)
  fix before t port er after
  assume eq: "tr @ [e] = before @ EvFlash t port er # after"
  from eq assms(2) have "after \<noteq> []" by (cases after) auto
  then obtain after' where "after = after' @ [last after]"
    by (metis append_butlast_last_id)
  with eq have "tr = before @ EvFlash t port er # after'"
    by (metis append_Cons append_assoc append1_eq_conv)
  with assms(1) show "er = (before \<noteq> [] \<and> last before = EvRetry t Erase)"
    by (simp add: erase_ok_def)
qed

lemma erase_ok_flash:
  assumes "erase_ok tr" and "er = (tr \<noteq> [] \<and> last tr = EvRetry t Erase)"
  shows "erase_ok (tr @ [EvFlash t port er])"
  unfolding erase_ok_def
proof (intro allI impI)
  fix before t' port' er' after
  assume eq: "tr @ [EvFlash t port er] = before @ EvFlash t' port' er' # after"
  show "er' = (before \<noteq> [] \<and> last before = EvRetry t' Erase)"
  proof (cases "after = []")
    case True
    with eq assms(2) show ?thesis by auto
  next
    case False
    then obtain after' where "after = after' @ [last after]"
      by (metis append_butlast_last_id)
    with eq have "tr = before @ EvFlash t' port' er' # after'"
      by (metis append_Cons append_assoc append1_eq_conv)
    with assms(1) show ?thesis by (simp add: erase_ok_def)
  qed
qed

lemma flash_attempt_erase:
  assumes "flash_attempt w t port fw er st = (r, st')"
    and "erase_ok (trace st)" and "er = (trace st \<noteq> [] \<and> last (trace st) = EvRetry t Erase)"
  shows "erase_ok (trace st') \<and> trace st' \<noteq> []
    \<and> (\<forall>er'. r = Continue er' \<longrightarrow> er' = (last (trace st') = EvRetry t Erase))
    \<and> (r = Leave Break \<longrightarrow> (\<forall>t'. last (trace st') \<noteq> EvRetry t' Erase))"
proof -
  have s1: "erase_ok (trace st @ [EvFlash t port er])"
    using assms(2,3) by (rule erase_ok_flash)
  have s2: "erase_ok (trace st @ [EvFlash t port er, e])"
    if "\<forall>t port er. e \<noteq> EvFlash t port er" for e
    using erase_ok_other [OF s1 that] by simp
  have s3: "erase_ok (trace st @ [EvFlash t port er, e, e'])"
    if "\<forall>t port er. e \<noteq> EvFlash t port er" "\<forall>t port er. e' \<noteq> EvFlash t port er" for e e'
    using erase_ok_other [OF s2 [OF that(1)] that(2)] by simp
  have s4: "erase_ok (trace st @ [EvFlash t port er, e, e', e''])"
    if "\<forall>t port er. e \<noteq> EvFlash t port er" "\<forall>t port er. e' \<noteq> EvFlash t port er"
      "\<forall>t port er. e'' \<noteq> EvFlash t port er" for e e' e''
    using erase_ok_other [OF s3 [OF that(1,2)] that(3)] by simp
  from assms(1) show ?thesis
  proof (cases rule: flash_attempt_elim)
    case (raise1 e)
    with s1 show ?thesis by simp
  next
    case (raise2 e)
    with s2 [of "EvPortExists port"] show ?thesis by simp
  next
    case success
    with s2 [of "EvOutcome t True"] show ?thesis by simp
  next
    case (disconnect a)
    with s3 [of "EvPortExists port" "EvDisconnect t a"] show ?thesis by simp
  next
    case (again a)
    with s3 [of "EvPortExists port" "EvRetry t a"] show ?thesis by auto
  next
    case skip
    with s4 [of "EvPortExists port" "EvRetry t Skip" "EvOutcome t False"] show ?thesis by simp
  next
    case (leave a)
    with s3 [of "EvPortExists port" "EvRetry t a"] show ?thesis by auto
  qed
qed

lemma flash_loop_erase:
  "flash_loop n w t port fw er st = (ex, st') \<Longrightarrow> erase_ok (trace st) \<Longrightarrow>
   er = (trace st \<noteq> [] \<and> last (trace st) = EvRetry t Erase) \<Longrightarrow>
   erase_ok (trace st')
   \<and> (ex = Break \<longrightarrow> trace st' \<noteq> [] \<and> (\<forall>t'. last (trace st') \<noteq> EvRetry t' Erase))"
proof (induction n arbitrary: er st)
  case 0
  then show ?case by simp
next
  case (Suc n)
  obtain r st1 where a: "flash_attempt w t port fw er st = (r, st1)"
    by (cases "flash_attempt w t port fw er st")
  note s = flash_attempt_erase [OF a Suc.prems(2,3)]
  show ?case
  proof (cases r)
    case (Leave ex')
    with Suc.prems(1) a s show ?thesis by auto
  next
    case (Continue er')
    with Suc.prems(1) a have "flash_loop n w t port fw er' st1 = (ex, st')" by simp
    with s Continue show ?thesis by (intro Suc.IH) auto
  qed
qed

lemma flash_block_erase:
  assumes "flash_block n w t devs fw st = (ex, st')" and "erase_ok (trace st)"
    and "trace st \<noteq> []" and "\<forall>t'. last (trace st) \<noteq> EvRetry t' Erase"
  shows "erase_ok (trace st')
   \<and> (ex = Break \<longrightarrow> trace st' \<noteq> [] \<and> (\<forall>t'. last (trace st') \<noteq> EvRetry t' Erase))"
  using flash_block_cases [OF assms(1)]
proof (elim disjE exE conjE)
  fix port assume "flash_loop n w t port fw False st = (ex, st')"
  from flash_loop_erase [OF this assms(2)] assms(4) show ?thesis by simp
qed (use assms in simp)

lemma check_done_erase:
  assumes "check_done st = (r, st')" and "erase_ok (trace st)"
  shows "erase_ok (trace st')"
proof -
  have "erase_ok ((trace st @ [EvContinue c]) @ [EvSummary])"
    "erase_ok (trace st @ [EvContinue c])" "erase_ok (trace st @ [EvSummary])" for c
    using assms(2) by (intro erase_ok_other; simp)+
  with check_done_effect [OF assms(1)] assms(2) show ?thesis by auto
qed

lemma main_iteration_erase:
  assumes "main_iteration n w f1 f2 st = (r, st')" and "erase_ok (trace st)"
  shows "erase_ok (trace st')"
proof -
  have scan: "erase_ok (trace st @ [EvScan])"
    using assms(2) by (rule erase_ok_other) simp
  then have nodev: "erase_ok ((trace st @ [EvScan]) @ [EvNoDevices a])" for a
    by (rule erase_ok_other) simp
  have start: "erase_ok (trace st1) \<and> trace st1 \<noteq> []
      \<and> (\<forall>t'. last (trace st1) \<noteq> EvRetry t' Erase)"
    if "trace st1 = trace st @ [EvScan]" for st1 :: session
    using that scan by simp
  from assms(1) show ?thesis
  proof (cases rule: main_iteration_elim)
    case (raised e)
    with scan show ?thesis by simp
  next
    case (nodev a)
    with \<open>\<And>a. erase_ok ((trace st @ [EvScan]) @ [EvNoDevices a])\<close> show ?thesis by simp
  next
    case (first devs st1 ex1)
    from start [OF first(1)] flash_block_erase [OF first(3)] show ?thesis by blast
  next
    case (second devs st1 st2 ex2)
    from start [OF second(1)] flash_block_erase [OF second(3)]
    have "erase_ok (trace st2) \<and> trace st2 \<noteq> [] \<and> (\<forall>t'. last (trace st2) \<noteq> EvRetry t' Erase)"
      by blast
    with flash_block_erase [OF second(4)] show ?thesis by blast
  next
    case (checked devs st1 st2 st3)
    from start [OF checked(1)] flash_block_erase [OF checked(3)]
    have "erase_ok (trace st2) \<and> trace st2 \<noteq> [] \<and> (\<forall>t'. last (trace st2) \<noteq> EvRetry t' Erase)"
      by blast
    with flash_block_erase [OF checked(4)] have "erase_ok (trace st3)" by blast
    with checked(5) show ?thesis by (rule check_done_erase)
  qed
qed

lemma main_loop_erase:
  "main_loop n w f1 f2 st = (status, st') \<Longrightarrow> erase_ok (trace st) \<Longrightarrow> erase_ok (trace st')"
proof (induction n arbitrary: st)
  case 0
  then show ?case by simp
next
  case (Suc n)
  obtain r st1 where a: "main_iteration n w f1 f2 st = (r, st1)"
    by (cases "main_iteration n w f1 f2 st")
  note s = main_iteration_erase [OF a Suc.prems(2)]
  show ?case
  proof (cases r)
    case (Stop x)
    with Suc.prems(1) a s show ?thesis by simp
  next
    case Next
    with Suc.prems(1) a have "main_loop n w f1 f2 st1 = (status, st')" by simp
    then show ?thesis using s by (rule Suc.IH)
  qed
qed

text \<open>
  Claim C5. In every session, a \<open>flash_device\<close> call has \<open>erase_first\<close> set if and only if
  the event just before it is the operator's "erase" at the retry prompt of the same
  device type. So the first attempt of an attempt sequence (which follows a scan or the
  other device's block) has it cleared, an attempt after "retry" or the empty answer has
  it cleared, and the flag is never carried into an attempt that does not directly follow
  an "erase" choice.
\<close>

theorem erase_first_only_after_erase_choice:
  assumes "main n boot w inp = (status, st)"
    and "trace st = before @ EvFlash t port er # after"
  shows "er = (before \<noteq> [] \<and> last before = EvRetry t Erase)"
proof -
  have "erase_ok (trace st)"
    using main_cases [OF assms(1)]
    by (auto simp: session0_def erase_ok_Nil dest!: main_loop_erase)
  with assms(2) show ?thesis by (simp add: erase_ok_def)
qed

theorem erase_first_only_after_erase_choice_witness:
  "\<exists>status st. main 4 demo_boot demo_world [Line ''e'', Line ''r'', Line [], Line ''q'']
       = (status, st)
     \<and> trace st = [EvScan, EvFlash C5 ''COM4'' False, EvPortExists ''COM4'', EvRetry C5 Erase]
       @ EvFlash C5 ''COM4'' True
       # [EvOutcome C5 True, EvFlash Wroom ''COM3'' False, EvPortExists ''COM3'',
          EvRetry Wroom Rescan, EvContinue (Some []), EvScan, EvFlash Wroom ''COM3'' False,
          EvPortExists ''COM3'', EvRetry Wroom Quit]
     \<and> True = ([EvScan, EvFlash C5 ''COM4'' False, EvPortExists ''COM4'', EvRetry C5 Erase] \<noteq> []
          \<and> last [EvScan, EvFlash C5 ''COM4'' False, EvPortExists ''COM4'', EvRetry C5 Erase]
            = EvRetry C5 Erase)"
proof -
  from demo_rescan_run obtain status st where
    run: "main 4 demo_boot demo_world [Line ''e'', Line ''r'', Line [], Line ''q''] = (status, st)"
    and tr: "trace st = [EvScan, EvFlash C5 ''COM4'' False, EvPortExists ''COM4'', EvRetry C5 Erase]
       @ EvFlash C5 ''COM4'' True
       # [EvOutcome C5 True, EvFlash Wroom ''COM3'' False, EvPortExists ''COM3'',
          EvRetry Wroom Rescan, EvContinue (Some []), EvScan, EvFlash Wroom ''COM3'' False,
          EvPortExists ''COM3'', EvRetry Wroom Quit]"
    by (auto split: prod.splits)
  note erase_first_only_after_erase_choice [OF run tr]
  with run tr show ?thesis by blast
qed

subsection \<open>The exit code\<close>

lemma undecided_simps:
  "undecided []"
  "undecided (e # es) = (\<not> is_quit e \<and> e \<noteq> EvSummary \<and> undecided es)"
  "undecided (xs @ ys) = (undecided xs \<and> undecided ys)"
  by (auto simp: undecided_def)

lemma flash_attempt_quit:
  assumes "flash_attempt w t port fw er st = (r, st')" and "undecided (trace st)"
  shows "(case r of Leave (Return c) \<Rightarrow> c = 1 \<and> ended_by_quit (trace st')
          | _ \<Rightarrow> undecided (trace st'))"
  using assms(1)
proof (cases rule: flash_attempt_elim)
  case (disconnect a)
  with assms(2) show ?thesis
    by (simp add: undecided_simps ended_by_quit_def butlast_append)
next
  case (again a)
  with assms(2) show ?thesis by (auto simp: undecided_simps)
next
  case (leave a)
  with assms(2) show ?thesis
    by (auto simp: undecided_simps ended_by_quit_def butlast_append)
qed (use assms(2) in \<open>simp_all add: undecided_simps\<close>)

lemma flash_loop_quit:
  "flash_loop n w t port fw er st = (ex, st') \<Longrightarrow> undecided (trace st) \<Longrightarrow>
   (case ex of Return c \<Rightarrow> c = 1 \<and> ended_by_quit (trace st') | _ \<Rightarrow> undecided (trace st'))"
proof (induction n arbitrary: er st)
  case 0
  then show ?case by simp
next
  case (Suc n)
  obtain r st1 where a: "flash_attempt w t port fw er st = (r, st1)"
    by (cases "flash_attempt w t port fw er st")
  note s = flash_attempt_quit [OF a Suc.prems(2)]
  show ?case
  proof (cases r)
    case (Leave ex')
    with Suc.prems(1) a s show ?thesis by (cases ex') auto
  next
    case (Continue er')
    with Suc.prems(1) a have "flash_loop n w t port fw er' st1 = (ex, st')" by simp
    with s Continue show ?thesis by (intro Suc.IH) auto
  qed
qed

lemma flash_block_quit:
  assumes "flash_block n w t devs fw st = (ex, st')" and "undecided (trace st)"
  shows "(case ex of Return c \<Rightarrow> c = 1 \<and> ended_by_quit (trace st')
          | _ \<Rightarrow> undecided (trace st'))"
  using flash_block_cases [OF assms(1)] assms(2) by (auto dest: flash_loop_quit)

lemma check_done_closing:
  assumes "check_done st = (r, st')" and "undecided (trace st)"
  shows "(case r of Next \<Rightarrow> undecided (trace st') | Stop s \<Rightarrow> closing s st')"
  using check_done_effect [OF assms(1)] assms(2)
  by (auto simp: closing_def undecided_simps ended_by_summary_def butlast_append)

lemma main_iteration_closing:
  assumes "main_iteration n w f1 f2 st = (r, st')" and "undecided (trace st)"
  shows "(case r of Next \<Rightarrow> undecided (trace st') | Stop s \<Rightarrow> closing s st')"
proof -
  have start: "undecided (trace st1)" if "trace st1 = trace st @ [EvScan]" for st1 :: session
    using that assms(2) by (simp add: undecided_simps)
  from assms(1) show ?thesis
  proof (cases rule: main_iteration_elim)
    case (raised e)
    with assms(2) show ?thesis by (simp add: closing_def undecided_simps)
  next
    case (nodev a)
    with assms(2) show ?thesis
      by (auto simp: closing_def undecided_simps ended_by_quit_def butlast_append)
  next
    case (first devs st1 ex1)
    from flash_block_quit [OF first(3) start [OF first(1)]] first(4) show ?thesis
      by (auto simp: closing_def)
  next
    case (second devs st1 st2 ex2)
    from flash_block_quit [OF second(3) start [OF second(1)]] have "undecided (trace st2)"
      by simp
    from flash_block_quit [OF second(4) this] second(5) show ?thesis
      by (auto simp: closing_def)
  next
    case (checked devs st1 st2 st3)
    from flash_block_quit [OF checked(3) start [OF checked(1)]] have "undecided (trace st2)"
      by simp
    from flash_block_quit [OF checked(4) this] have "undecided (trace st3)" by simp
    with checked(5) show ?thesis by (rule check_done_closing)
  qed
qed

lemma main_loop_closing:
  "main_loop n w f1 f2 st = (status, st') \<Longrightarrow> undecided (trace st) \<Longrightarrow> closing status st'"
proof (induction n arbitrary: st)
  case 0
  then show ?case by (simp add: closing_def)
next
  case (Suc n)
  obtain r st1 where a: "main_iteration n w f1 f2 st = (r, st1)"
    by (cases "main_iteration n w f1 f2 st")
  note s = main_iteration_closing [OF a Suc.prems(2)]
  show ?case
  proof (cases r)
    case (Stop x)
    with Suc.prems(1) a s show ?thesis by simp
  next
    case Next
    with Suc.prems(1) a have "main_loop n w f1 f2 st1 = (status, st')" by simp
    then show ?thesis using s Next by (intro Suc.IH) simp_all
  qed
qed

lemma main_closing:
  assumes "main n boot w inp = (status, st)"
  shows "closing status st"
  using main_cases [OF assms]
  by (auto simp: session0_def closing_def undecided_simps dest!: main_loop_closing)

text \<open>
  Claim C10. The exit code of the process is 0 if and only if the summary was printed and
  at least one entry of \<open>flash_results\<close> is \<open>True\<close>. A "quit" at any of the three prompts
  (no devices, disconnect, retry) makes \<open>main\<close> return 1: the quit is the last event, and no
  summary is printed even when a device had succeeded before. (The answer "q" to the
  question of line 569 is not a quit: it ends the loop and leads to the summary.)
\<close>

theorem exit_code_zero_iff_summary_with_success:
  assumes "main n boot w inp = (status, st)"
  shows "(exit_code status = Some 0
          \<longleftrightarrow> EvSummary \<in> set (trace st)
              \<and> (flash_results st C5 = Some True \<or> flash_results st Wroom = Some True))
    \<and> (\<forall>e\<in>set (trace st). is_quit e \<longrightarrow>
          status = Returned 1 \<and> exit_code status = Some 1
          \<and> EvSummary \<notin> set (trace st) \<and> last (trace st) = e)"
proof -
  note c = main_closing [OF assms]
  have no_sum: "EvSummary \<notin> set tr" "\<forall>e\<in>set tr. \<not> is_quit e" if "undecided tr" for tr
    using that by (auto simp: undecided_def)
  have quit: "EvSummary \<notin> set tr" "\<forall>e\<in>set tr. is_quit e \<longrightarrow> last tr = e"
    if "ended_by_quit tr" for tr
  proof -
    from that have ne: "tr \<noteq> []" and q: "is_quit (last tr)"
      and u: "undecided (butlast tr)"
      by (simp_all add: ended_by_quit_def)
    from ne have tr: "tr = butlast tr @ [last tr]" by simp
    from u q show "EvSummary \<notin> set tr"
      by (subst tr) (auto simp: undecided_def)
    from u show "\<forall>e\<in>set tr. is_quit e \<longrightarrow> last tr = e"
      by (subst (1) tr) (auto simp: undecided_def)
  qed
  have sum: "EvSummary \<in> set tr" "\<forall>e\<in>set tr. \<not> is_quit e" if "ended_by_summary tr" for tr
  proof -
    from that have ne: "tr \<noteq> []" and q: "last tr = EvSummary"
      and u: "undecided (butlast tr)"
      by (simp_all add: ended_by_summary_def)
    from ne have tr: "tr = butlast tr @ [last tr]" by simp
    from q show "EvSummary \<in> set tr" by (subst tr) simp
    from u q show "\<forall>e\<in>set tr. \<not> is_quit e"
      by (subst tr) (auto simp: undecided_def)
  qed
  show ?thesis
  proof (cases status)
    case (Returned code)
    with c consider
        (boot) "code = 1" "undecided (trace st)"
      | (quit) "code = 1" "ended_by_quit (trace st)"
      | (summary) "code = 0 \<longleftrightarrow> flash_results st C5 = Some True \<or> flash_results st Wroom = Some True"
          "code = 0 \<or> code = 1" "ended_by_summary (trace st)"
      by (auto simp: closing_def)
    then show ?thesis
    proof cases
      case boot
      with Returned no_sum [OF boot(2)] show ?thesis by auto
    next
      case quit
      with Returned \<open>ended_by_quit (trace st) \<Longrightarrow> EvSummary \<notin> set (trace st)\<close>
        \<open>ended_by_quit (trace st) \<Longrightarrow> \<forall>e\<in>set (trace st). is_quit e \<longrightarrow> last (trace st) = e\<close>
      show ?thesis by auto
    next
      case summary
      with Returned sum [OF summary(3)] show ?thesis by auto
    qed
  next
    case (Raised e)
    with c have "undecided (trace st)" by (simp add: closing_def)
    with Raised no_sum [OF this] show ?thesis by auto
  next
    case OutOfFuel
    with c have "undecided (trace st)" by (simp add: closing_def)
    with OutOfFuel no_sum [OF this] show ?thesis by auto
  qed
qed

theorem exit_code_zero_iff_summary_with_success_witness:
  "(\<exists>st. main 4 demo_boot demo_world [Line ''e'', Line ''r'', Line [], Line ''q'']
        = (Returned 1, st)
      \<and> EvOutcome C5 True \<in> set (trace st) \<and> EvSummary \<notin> set (trace st)
      \<and> last (trace st) = EvRetry Wroom Quit)
   \<and> (\<exists>st. main 4 demo_boot demo_world [Line ''e'', Line ''s''] = (Returned 0, st)
      \<and> EvSummary \<in> set (trace st)
      \<and> (flash_results st C5 = Some True \<or> flash_results st Wroom = Some True))"
proof -
  from demo_rescan_run obtain status st where
    run: "main 4 demo_boot demo_world [Line ''e'', Line ''r'', Line [], Line ''q''] = (status, st)"
    and tr: "trace st = [EvScan, EvFlash C5 ''COM4'' False, EvPortExists ''COM4'', EvRetry C5 Erase,
         EvFlash C5 ''COM4'' True, EvOutcome C5 True, EvFlash Wroom ''COM3'' False,
         EvPortExists ''COM3'', EvRetry Wroom Rescan, EvContinue (Some []), EvScan,
         EvFlash Wroom ''COM3'' False, EvPortExists ''COM3'', EvRetry Wroom Quit]"
    by (auto split: prod.splits)
  from tr have q: "EvRetry Wroom Quit \<in> set (trace st)" "is_quit (EvRetry Wroom Quit)"
    and o: "EvOutcome C5 True \<in> set (trace st)"
    by simp_all
  from exit_code_zero_iff_summary_with_success [OF run] q
  have "status = Returned 1" "EvSummary \<notin> set (trace st)" "last (trace st) = EvRetry Wroom Quit"
    by blast+
  with run o have first: "\<exists>st. main 4 demo_boot demo_world [Line ''e'', Line ''r'', Line [], Line ''q'']
        = (Returned 1, st)
      \<and> EvOutcome C5 True \<in> set (trace st) \<and> EvSummary \<notin> set (trace st)
      \<and> last (trace st) = EvRetry Wroom Quit"
    by blast
  from demo_skip_run obtain st2 where
    run2: "main 4 demo_boot demo_world [Line ''e'', Line ''s''] = (Returned 0, st2)"
    by (auto split: prod.splits)
  from exit_code_zero_iff_summary_with_success [OF run2]
  have "EvSummary \<in> set (trace st2)
    \<and> (flash_results st2 C5 = Some True \<or> flash_results st2 Wroom = Some True)"
    by simp
  with run2 first show ?thesis by blast
qed

end
